theory Spec2Isabelle
  imports Complex_Main
begin

section \<open>Data model of the electronics workbench\<close>

text \<open>
  The program is one Streamlit script, \<^verbatim>\<open>streamlit_electronics_workbench.py\<close>. Its
  state lives in \<^verbatim>\<open>st.session_state\<close>; the script mutates that state in button
  handlers of \<^verbatim>\<open>main\<close> and reads it in \<^verbatim>\<open>calculate_circuit_parameters\<close>.

  Numbers: the script computes with Python floats (and the int literals \<^verbatim>\<open>0\<close> and
  \<^verbatim>\<open>1\<close> used as defaults). They are modelled as mathematical reals, so rounding and
  NaN are outside this development. \<^verbatim>\<open>float('inf')\<close>, which the script produces on
  purpose, is kept as a value of its own, and so is the one exception that the size of a
  float can raise in this script, the \<^verbatim>\<open>OverflowError\<close> of \<^verbatim>\<open>x ** 2\<close>.
\<close>

text \<open>A parameter value: the catalog holds floats and strings.\<close>

datatype pval = Num real | Str string

type_synonym params = "string \<rightharpoonup> pval"

text \<open>A computed quantity: a float, or \<^verbatim>\<open>float('inf')\<close>.\<close>

datatype fval = Fin real | PInf

text \<open>The exceptions the modelled code can raise.\<close>

datatype error =
  TypeError | ZeroDivisionError | OverflowError | KeyError | StopIteration | ValueError
  | IndexError

text \<open>
  \<^verbatim>\<open>COMPONENTS\<close>, lines 22 to 101: the \<^verbatim>\<open>'params'\<close> entry of each of the thirteen types.
  The \<^verbatim>\<open>'symbol'\<close>, \<^verbatim>\<open>'units'\<close> and \<^verbatim>\<open>'color'\<close> entries are read by the drawing and
  display code only and are left out.
\<close>

definition COMPONENTS :: "string \<rightharpoonup> params" where
  "COMPONENTS =
    [''Resistor'' \<mapsto>
       [''resistance'' \<mapsto> Num 1000, ''power_rating'' \<mapsto> Num 0.25, ''tolerance'' \<mapsto> Num 5],
     ''Capacitor'' \<mapsto>
       [''capacitance'' \<mapsto> Num (100 / 10 ^ 6), ''voltage_rating'' \<mapsto> Num 25,
        ''type'' \<mapsto> Str ''Ceramic''],
     ''Inductor'' \<mapsto>
       [''inductance'' \<mapsto> Num (1 / 10 ^ 3), ''current_rating'' \<mapsto> Num 1,
        ''resistance'' \<mapsto> Num 0.1],
     ''Diode'' \<mapsto>
       [''forward_voltage'' \<mapsto> Num 0.7, ''max_current'' \<mapsto> Num 1,
        ''reverse_voltage'' \<mapsto> Num 50],
     ''LED'' \<mapsto>
       [''forward_voltage'' \<mapsto> Num 2, ''forward_current'' \<mapsto> Num 0.02,
        ''color'' \<mapsto> Str ''Red''],
     ''Transistor (NPN)'' \<mapsto>
       [''beta'' \<mapsto> Num 100, ''vbe'' \<mapsto> Num 0.7, ''vce_sat'' \<mapsto> Num 0.2],
     ''Battery'' \<mapsto>
       [''voltage'' \<mapsto> Num 9, ''capacity'' \<mapsto> Num 1000,
        ''internal_resistance'' \<mapsto> Num 0.1],
     ''AC Source'' \<mapsto>
       [''voltage_rms'' \<mapsto> Num 120, ''frequency'' \<mapsto> Num 50, ''phase'' \<mapsto> Num 0],
     ''Ground'' \<mapsto> Map.empty,
     ''Switch'' \<mapsto>
       [''state'' \<mapsto> Str ''Open'', ''contact_resistance'' \<mapsto> Num 0.01],
     ''Ammeter'' \<mapsto>
       [''range'' \<mapsto> Num 1, ''reading'' \<mapsto> Num 0, ''accuracy'' \<mapsto> Num 1],
     ''Voltmeter'' \<mapsto>
       [''range'' \<mapsto> Num 10, ''reading'' \<mapsto> Num 0, ''accuracy'' \<mapsto> Num 1],
     ''Load'' \<mapsto>
       [''power'' \<mapsto> Num 100, ''voltage'' \<mapsto> Num 12, ''type'' \<mapsto> Str ''Resistive'']]"

text \<open>A placed component: the dict built at lines 401 to 407.\<close>

record component =
  comp_id :: int
  comp_type :: string
  pos_x :: real
  pos_y :: real
  params :: params

text \<open>A connection: the dict built at line 425.\<close>

record connection =
  from_comp :: int
  to_comp :: int

text \<open>
  One entry of \<^verbatim>\<open>results['component_analysis']\<close> (lines 317 to 321). The key
  \<^verbatim>\<open>'calculated'\<close> is set in some branches only: \<open>None\<close> is the absent key, and a present
  dict is the list of its items in insertion order.
\<close>

record comp_analysis =
  ca_id :: int
  ca_type :: string
  parameters :: params
  calculated :: "(string \<times> fval) list option"

text \<open>
  The dict \<^verbatim>\<open>results\<close> (lines 306 to 313). The keys \<^verbatim>\<open>'circuit_current'\<close> and
  \<^verbatim>\<open>'total_power'\<close> are set at lines 376 and 377 only: \<open>None\<close> is the absent key.
\<close>

record results =
  total_resistance :: real
  total_capacitance :: real
  total_inductance :: real
  voltage_sources :: "real list"
  power_consumption :: real
  component_analysis :: "comp_analysis list"
  circuit_current :: "real option"
  total_power :: "real option"

text \<open>
  \<^verbatim>\<open>st.session_state\<close> (lines 104 to 111). \<^verbatim>\<open>analysis_results\<close> starts as the
  empty dict \<^verbatim>\<open>{}\<close>, modelled by \<open>None\<close>.
\<close>

record session =
  circuit_components :: "component list"
  connections :: "connection list"
  analysis_results :: "results option"
  component_counter :: int

definition init_session :: session where
  "init_session =
    \<lparr>circuit_components = [], connections = [], analysis_results = None,
     component_counter = 0\<rparr>"

section \<open>The analysis: \<^verbatim>\<open>calculate_circuit_parameters\<close>\<close>

text \<open>\<^verbatim>\<open>d.get(k, default)\<close>.\<close>

definition get :: "params \<Rightarrow> string \<Rightarrow> pval \<Rightarrow> pval" where
  "get d k dflt = (case d k of None \<Rightarrow> dflt | Some v \<Rightarrow> v)"

text \<open>Python truthiness, as \<^verbatim>\<open>or\<close> tests it: \<^verbatim>\<open>0\<close>, \<^verbatim>\<open>0.0\<close> and \<^verbatim>\<open>''\<close> are false.\<close>

fun truthy :: "pval \<Rightarrow> bool" where
  "truthy (Num r) = (r \<noteq> 0)"
| "truthy (Str s) = (s \<noteq> [])"

text \<open>\<^verbatim>\<open>a or b\<close>.\<close>

definition py_or :: "pval \<Rightarrow> pval \<Rightarrow> pval" where
  "py_or a b = (if truthy a then a else b)"

text \<open>
  \<^verbatim>\<open>x ** 2\<close> on a float raises \<^verbatim>\<open>OverflowError\<close> when the square is too large for a
  double, which is from \<open>2^1024 - 2^970\<close> on (there the square rounds to infinity). It is
  the only operation of the script that raises on a large value: \<^verbatim>\<open>+\<close>, \<^verbatim>\<open>*\<close> and
  \<^verbatim>\<open>/\<close> give \<^verbatim>\<open>inf\<close> instead.
\<close>

definition overflow_bound :: real where
  "overflow_bound = 2 ^ 1024 - 2 ^ 970"

definition square :: "real \<Rightarrow> error + real" where
  "square v = (if overflow_bound \<le> v ^ 2 then Inl OverflowError else Inr (v ^ 2))"

text \<open>
  The branches of the loop body, lines 323 to 368. Each takes the component's params and
  the results so far and gives the updated results with the \<^verbatim>\<open>'calculated'\<close> dict of the
  component, or the exception raised. Arithmetic or comparison of a string with a number
  raises \<^verbatim>\<open>TypeError\<close>.
\<close>

definition analyze_resistor ::
    "params \<Rightarrow> results \<Rightarrow> error + results \<times> (string \<times> fval) list option" where
  "analyze_resistor ps res =
    (case get ps ''resistance'' (Num 0) of
       Str _ \<Rightarrow> Inl TypeError
     | Num resistance \<Rightarrow>
         (let current = 0.001;
              pwr = current ^ 2 * resistance \<comment> \<open>the square of the constant is a float\<close>
          in Inr (res\<lparr>total_resistance := total_resistance res + resistance\<rparr>,
                  Some [(''power_dissipated'', Fin pwr),
                        (''voltage_drop'', Fin (current * resistance))])))"

definition analyze_capacitor ::
    "params \<Rightarrow> results \<Rightarrow> error + results \<times> (string \<times> fval) list option" where
  "analyze_capacitor ps res =
    (case get ps ''capacitance'' (Num 0) of
       Str _ \<Rightarrow> Inl TypeError
     | Num capacitance \<Rightarrow>
         (let res1 = (if capacitance > 0
                      then res\<lparr>total_capacitance := total_capacitance res + capacitance\<rparr>
                      else res)
          in case get ps ''voltage_rating'' (Num 0) of
               Str _ \<Rightarrow> Inl TypeError
             | Num voltage_rating \<Rightarrow>
                 (case square voltage_rating of
                    Inl e \<Rightarrow> Inl e
                  | Inr voltage_rating2 \<Rightarrow>
                      Inr (res1,
                           Some [(''energy_stored'', Fin (0.5 * capacitance * voltage_rating2)),
                                 (''reactance_60hz'',
                                    if capacitance > 0
                                    then Fin (1 / (2 * pi * 60 * capacitance))
                                    else PInf)]))))"

definition analyze_inductor ::
    "params \<Rightarrow> results \<Rightarrow> error + results \<times> (string \<times> fval) list option" where
  "analyze_inductor ps res =
    (case get ps ''inductance'' (Num 0) of
       Str _ \<Rightarrow> Inl TypeError
     | Num inductance \<Rightarrow>
         (let res1 = res\<lparr>total_inductance := total_inductance res + inductance\<rparr>
          in case get ps ''current_rating'' (Num 0) of
               Str _ \<Rightarrow> Inl TypeError
             | Num current_rating \<Rightarrow>
                 (case square current_rating of
                    Inl e \<Rightarrow> Inl e
                  | Inr current_rating2 \<Rightarrow>
                      Inr (res1,
                           Some [(''energy_stored'', Fin (0.5 * inductance * current_rating2)),
                                 (''reactance_60hz'', Fin (2 * pi * 60 * inductance))]))))"

text \<open>
  Lines 352 to 356. The voltage is appended to \<^verbatim>\<open>voltage_sources\<close> before
  \<^verbatim>\<open>voltage**2\<close> is computed; a string there raises and the call returns nothing, so the
  list of the model holds numbers only. The square is computed before the divisor is
  read, and the division raises \<^verbatim>\<open>ZeroDivisionError\<close> on a zero divisor.
\<close>

definition analyze_source ::
    "params \<Rightarrow> results \<Rightarrow> error + results \<times> (string \<times> fval) list option" where
  "analyze_source ps res =
    (case py_or (get ps ''voltage'' (Num 0)) (get ps ''voltage_rms'' (Num 0)) of
       Str _ \<Rightarrow> Inl TypeError
     | Num voltage \<Rightarrow>
         (let res1 = res\<lparr>voltage_sources := voltage_sources res @ [voltage]\<rparr>
          in case square voltage of
               Inl e \<Rightarrow> Inl e
             | Inr voltage2 \<Rightarrow>
                 (case get ps ''internal_resistance'' (Num 1) of
                    Str _ \<Rightarrow> Inl TypeError
                  | Num internal_resistance \<Rightarrow>
                      if internal_resistance = 0 then Inl ZeroDivisionError
                      else Inr (res1,
                                Some [(''max_power'', Fin (voltage2 / internal_resistance))]))))"

definition analyze_load ::
    "params \<Rightarrow> results \<Rightarrow> error + results \<times> (string \<times> fval) list option" where
  "analyze_load ps res =
    (case get ps ''power'' (Num 0) of
       Str _ \<Rightarrow> Inl TypeError
     | Num pwr \<Rightarrow>
         (let res1 = res\<lparr>power_consumption := power_consumption res + pwr\<rparr>
          in case get ps ''voltage'' (Num 0) of
               Str _ \<Rightarrow> Inl TypeError
             | Num voltage \<Rightarrow>
                 if voltage > 0
                 then (let current = pwr / voltage;
                           resistance = (if current > 0 then Fin (voltage / current) else PInf)
                       in Inr (res1, Some [(''current'', Fin current),
                                           (''resistance'', resistance)]))
                 else Inr (res1, None)))"

text \<open>The \<^verbatim>\<open>if\<close>/\<^verbatim>\<open>elif\<close> chain on \<^verbatim>\<open>comp['type']\<close>; no branch for the other types.\<close>

definition analyze_branch ::
    "component \<Rightarrow> results \<Rightarrow> error + results \<times> (string \<times> fval) list option" where
  "analyze_branch c res =
    (if comp_type c = ''Resistor'' then analyze_resistor (params c) res
     else if comp_type c = ''Capacitor'' then analyze_capacitor (params c) res
     else if comp_type c = ''Inductor'' then analyze_inductor (params c) res
     else if comp_type c \<in> set [''Battery'', ''AC Source'']
       then analyze_source (params c) res
     else if comp_type c = ''Load'' then analyze_load (params c) res
     else Inr (res, None))"

text \<open>
  One iteration of the loop, lines 317 to 370: the entry is appended after the branch,
  with a copy of the component's params.
\<close>

definition analyze_component :: "component \<Rightarrow> results \<Rightarrow> error + results" where
  "analyze_component c res =
    (case analyze_branch c res of
       Inl e \<Rightarrow> Inl e
     | Inr (res1, calc) \<Rightarrow>
         Inr (res1\<lparr>component_analysis := component_analysis res1 @
                [\<lparr>ca_id = comp_id c, ca_type = comp_type c,
                  parameters = params c, calculated = calc\<rparr>]\<rparr>))"

text \<open>The loop of line 316: an exception in one iteration ends the call.\<close>

fun analyze_components :: "component list \<Rightarrow> results \<Rightarrow> error + results" where
  "analyze_components [] res = Inr res"
| "analyze_components (c # cs) res =
    (case analyze_component c res of
       Inl e \<Rightarrow> Inl e
     | Inr res1 \<Rightarrow> analyze_components cs res1)"

definition init_results :: results where
  "init_results =
    \<lparr>total_resistance = 0, total_capacitance = 0, total_inductance = 0,
     voltage_sources = [], power_consumption = 0, component_analysis = [],
     circuit_current = None, total_power = None\<rparr>"

text \<open>Lines 373 to 377.\<close>

definition overall :: "results \<Rightarrow> results" where
  "overall res =
    (if voltage_sources res \<noteq> [] \<and> total_resistance res > 0
     then (let total_voltage = sum_list (voltage_sources res);
               current = total_voltage / total_resistance res
           in res\<lparr>circuit_current := Some current,
                   total_power := Some (total_voltage * current)\<rparr>)
     else res)"

text \<open>
  The function reads \<^verbatim>\<open>st.session_state.circuit_components\<close> and nothing else of the
  session; it returns the results dict and writes nothing.
\<close>

definition calculate_circuit_parameters :: "session \<Rightarrow> error + results" where
  "calculate_circuit_parameters s =
    (case analyze_components (circuit_components s) init_results of
       Inl e \<Rightarrow> Inl e
     | Inr res \<Rightarrow> Inr (overall res))"

section \<open>The handlers of \<^verbatim>\<open>main\<close>\<close>

text \<open>
  ``Add Component'', lines 399 to 409. The counter is incremented first; the new dict is
  built next, and \<^verbatim>\<open>COMPONENTS[selected_component]\<close> raises \<^verbatim>\<open>KeyError\<close> for a name that is
  not in the catalog, after the increment and before the append. (The select box offers the
  catalog's names only.) \<^verbatim>\<open>.copy()\<close> gives the new component a dict of its own; the
  values are floats and strings, so the map of the model is that copy.
\<close>

definition add_component :: "string \<Rightarrow> real \<Rightarrow> real \<Rightarrow> session \<Rightarrow> error option \<times> session" where
  "add_component selected_component x_pos y_pos s =
    (let s1 = s\<lparr>component_counter := component_counter s + 1\<rparr>
     in case COMPONENTS selected_component of
          None \<Rightarrow> (Some KeyError, s1)
        | Some dflt \<Rightarrow>
            (None,
             s1\<lparr>circuit_components := circuit_components s1 @
                  [\<lparr>comp_id = component_counter s1, comp_type = selected_component,
                    pos_x = x_pos, pos_y = y_pos, params = dflt\<rparr>]\<rparr>))"

text \<open>
  The select boxes of lines 416 to 418 and 468 to 472 offer one label for each placed
  component, \<^verbatim>\<open>f"{c['type']} ({c['id']})"\<close>; the handlers read the id back out of the
  selected label with \<^verbatim>\<open>int(label.split('(')[1].split(')')[0])\<close> (lines 421, 422 and
  475). The functions below are \<^verbatim>\<open>str.split\<close> for a separator of one character,
  \<^verbatim>\<open>str\<close> and \<^verbatim>\<open>int\<close> on decimal numerals (\<^verbatim>\<open>int\<close> strips white space and accepts a sign
  and single underscores between digits, and raises \<^verbatim>\<open>ValueError\<close> otherwise), and
  indexing at 1, which raises \<^verbatim>\<open>IndexError\<close> when there is no second part.
\<close>

fun split_on :: "char \<Rightarrow> string \<Rightarrow> string list" where
  "split_on sep [] = [[]]"
| "split_on sep (ch # rest) =
    (if ch = sep then [] # split_on sep rest
     else (let parts = split_on sep rest in (ch # hd parts) # tl parts))"

definition is_space :: "char \<Rightarrow> bool" where
  "is_space ch = (of_char ch \<in> {9, 10, 11, 12, 13, 28, 29, 30, 31, 32 :: nat})"

definition strip :: "string \<Rightarrow> string" where
  "strip s = rev (dropWhile is_space (rev (dropWhile is_space s)))"

definition is_digit :: "char \<Rightarrow> bool" where
  "is_digit ch = (48 \<le> (of_char ch :: nat) \<and> (of_char ch :: nat) \<le> 57)"

definition digit_val :: "char \<Rightarrow> nat" where
  "digit_val ch = of_char ch - 48"

fun parse_digits :: "nat \<Rightarrow> string \<Rightarrow> nat option" where
  "parse_digits acc [] = Some acc"
| "parse_digits acc (ch # rest) =
    (if is_digit ch then parse_digits (10 * acc + digit_val ch) rest
     else if ch = CHR ''_'' then
       (case rest of
          [] \<Rightarrow> None
        | d # rest' \<Rightarrow>
            if is_digit d then parse_digits (10 * acc + digit_val d) rest' else None)
     else None)"

definition parse_nat :: "string \<Rightarrow> nat option" where
  "parse_nat s =
    (case s of [] \<Rightarrow> None | ch # _ \<Rightarrow> if is_digit ch then parse_digits 0 s else None)"

definition py_int :: "string \<Rightarrow> error + int" where
  "py_int s =
    (case (case strip s of
             ch # rest \<Rightarrow>
               if ch = CHR ''-'' then map_option (\<lambda>n. - int n) (parse_nat rest)
               else if ch = CHR ''+'' then map_option int (parse_nat rest)
               else map_option int (parse_nat (ch # rest))
           | [] \<Rightarrow> None) of
       None \<Rightarrow> Inl ValueError
     | Some i \<Rightarrow> Inr i)"

definition digit_char :: "nat \<Rightarrow> char" where
  "digit_char d = char_of (48 + d)"

fun str_nat :: "nat \<Rightarrow> string" where
  "str_nat n = (if n < 10 then [digit_char n] else str_nat (n div 10) @ [digit_char (n mod 10)])"

definition str_int :: "int \<Rightarrow> string" where
  "str_int i = (if i < 0 then CHR ''-'' # str_nat (nat (- i)) else str_nat (nat i))"

text \<open>The label of a component, and the options of the select boxes.\<close>

definition option_label :: "component \<Rightarrow> string" where
  "option_label c = comp_type c @ '' ('' @ str_int (comp_id c) @ '')''"

definition comp_options :: "session \<Rightarrow> string list" where
  "comp_options s = map option_label (circuit_components s)"

text \<open>\<^verbatim>\<open>int(label.split('(')[1].split(')')[0])\<close>.\<close>

definition parse_id :: "string \<Rightarrow> error + int" where
  "parse_id label =
    (case split_on CHR ''('' label of
       _ # part # _ \<Rightarrow> py_int (hd (split_on CHR '')'' part))
     | _ \<Rightarrow> Inl IndexError)"

text \<open>
  ``Connect Components'', lines 415 to 434, for the two labels selected. With fewer than
  two components the form is not shown (\<^verbatim>\<open>st.info("Add at least 2 components to create
  connections")\<close>). Lines 421 and 422 read the ids, and raise when a label does not parse.
  The three messages of the handler are \<^verbatim>\<open>st.success("Connection created!")\<close>,
  \<^verbatim>\<open>st.warning("Connection already exists!")\<close> and
  \<^verbatim>\<open>st.error("Cannot connect component to itself!")\<close>. \<^verbatim>\<open>connection not in list\<close>
  compares dicts by equality, which is equality of the two fields.
\<close>

datatype connect_message =
  ConnectionCreated | ConnectionExists | SelfConnection | NeedTwoComponents

definition connect_components ::
    "string \<Rightarrow> string \<Rightarrow> session \<Rightarrow> error + connect_message \<times> session" where
  "connect_components from_label to_label s =
    (if length (circuit_components s) \<ge> 2
     then (case parse_id from_label of
             Inl e \<Rightarrow> Inl e
           | Inr from_id \<Rightarrow>
               (case parse_id to_label of
                  Inl e \<Rightarrow> Inl e
                | Inr to_id \<Rightarrow>
                    if from_id \<noteq> to_id
                    then (let connection = \<lparr>from_comp = from_id, to_comp = to_id\<rparr>
                          in if connection \<notin> set (connections s)
                             then Inr (ConnectionCreated,
                                       s\<lparr>connections := connections s @ [connection]\<rparr>)
                             else Inr (ConnectionExists, s))
                    else Inr (SelfConnection, s)))
     else Inr (NeedTwoComponents, s))"

text \<open>``Clear Circuit'', lines 440 to 444.\<close>

definition clear :: "session \<Rightarrow> session" where
  "clear s = s\<lparr>circuit_components := [], connections := [], component_counter := 0\<rparr>"

text \<open>
  ``Analyze Circuit'', lines 446 to 451. With no component the handler shows
  \<^verbatim>\<open>"Add components to analyze!"\<close> and stores nothing; an exception of the analysis
  leaves the session as it was.
\<close>

definition analyze_circuit :: "session \<Rightarrow> error + session" where
  "analyze_circuit s =
    (if circuit_components s \<noteq> []
     then (case calculate_circuit_parameters s of
             Inl e \<Rightarrow> Inl e
           | Inr res \<Rightarrow> Inr (s\<lparr>analysis_results := Some res\<rparr>))
     else Inr s)"

text \<open>
  Line 497, \<^verbatim>\<open>component['params'] = new_params\<close>, where \<^verbatim>\<open>component\<close> is the first
  component with the id (line 476): the dict held in the list gets the new params.
\<close>

fun set_params :: "int \<Rightarrow> params \<Rightarrow> component list \<Rightarrow> component list" where
  "set_params cid new_params [] = []"
| "set_params cid new_params (c # cs) =
    (if comp_id c = cid then c\<lparr>params := new_params\<rparr> # cs
     else c # set_params cid new_params cs)"

text \<open>
  Lines 481 to 494 build \<^verbatim>\<open>new_params\<close> from the widgets: one entry for each item of the
  component's params, a \<^verbatim>\<open>text_input\<close> for a string and a \<^verbatim>\<open>number_input\<close> (which has
  no bounds) for a number. The two functions stand for what the user typed in the widget
  of each parameter.
\<close>

definition form_params :: "(string \<Rightarrow> string) \<Rightarrow> (string \<Rightarrow> real) \<Rightarrow> params \<Rightarrow> params" where
  "form_params text_input number_input ps =
    (\<lambda>param. case ps param of
                None \<Rightarrow> None
              | Some (Str _) \<Rightarrow> Some (Str (text_input param))
              | Some (Num _) \<Rightarrow> Some (Num (number_input param)))"

text \<open>
  ``Update Parameters'', lines 466 to 499, for the label selected and the widgets' values,
  with the button pressed. Nothing is shown for an empty circuit or an empty selection.
  Line 475 reads the id, and raises when the label does not parse; line 476 takes the
  first component with that id, \<^verbatim>\<open>next(c for c in ... if c['id'] == comp_id)\<close>, which
  raises \<^verbatim>\<open>StopIteration\<close> when there is none; line 483 looks the type up in the catalog
  for each parameter, which raises \<^verbatim>\<open>KeyError\<close> for a type that is not there; line 497
  assigns the params that the form built.
\<close>

definition edit_component ::
    "string \<Rightarrow> (string \<Rightarrow> string) \<Rightarrow> (string \<Rightarrow> real) \<Rightarrow> session \<Rightarrow> error + session" where
  "edit_component selected text_input number_input s =
    (if circuit_components s = [] \<or> selected = [] then Inr s
     else case parse_id selected of
            Inl e \<Rightarrow> Inl e
          | Inr cid \<Rightarrow>
              (case find (\<lambda>c. comp_id c = cid) (circuit_components s) of
                 None \<Rightarrow> Inl StopIteration
               | Some component \<Rightarrow>
                   if params component \<noteq> Map.empty
                      \<and> COMPONENTS (comp_type component) = None
                   then Inl KeyError
                   else Inr (s\<lparr>circuit_components :=
                                 set_params cid
                                   (form_params text_input number_input (params component))
                                   (circuit_components s)\<rparr>)))"

section \<open>Auxiliary notions for the statements\<close>

text \<open>The number held by a parameter value; a string holds none.\<close>

fun num_of :: "pval \<Rightarrow> real" where
  "num_of (Num r) = r"
| "num_of (Str s) = 0"

text \<open>Adding components one after the other, each request a catalog name and a position.\<close>

fun add_components :: "(string \<times> real \<times> real) list \<Rightarrow> session \<Rightarrow> session" where
  "add_components [] s = s"
| "add_components ((t, px, py) # reqs) s = add_components reqs (snd (add_component t px py s))"

text \<open>
  The effective voltage of a source as the specification words it: the \<^verbatim>\<open>voltage\<close>
  parameter of a Battery, the \<^verbatim>\<open>voltage_rms\<close> parameter of an AC Source, 0 when missing.
\<close>

definition effective_voltage :: "component \<Rightarrow> real" where
  "effective_voltage c =
    (if comp_type c = ''Battery'' then num_of (get (params c) ''voltage'' (Num 0))
     else num_of (get (params c) ''voltage_rms'' (Num 0)))"

text \<open>The voltage of a source as line 352 computes it, whatever the type.\<close>

definition source_voltage :: "component \<Rightarrow> real" where
  "source_voltage c =
    num_of (py_or (get (params c) ''voltage'' (Num 0)) (get (params c) ''voltage_rms'' (Num 0)))"

text \<open>An entry of \<^verbatim>\<open>component_analysis\<close> is the entry of a component: the loop body made it.\<close>

definition entry_ok :: "component \<Rightarrow> comp_analysis \<Rightarrow> bool" where
  "entry_ok c e \<longleftrightarrow>
     (\<exists>ra rb calc. analyze_branch c ra = Inr (rb, calc) \<and>
        e = \<lparr>ca_id = comp_id c, ca_type = comp_type c, parameters = params c,
             calculated = calc\<rparr>)"

text \<open>
  The parameters the analysis reads, and the default each \<^verbatim>\<open>.get\<close> call gives: 0, and 1
  for \<^verbatim>\<open>internal_resistance\<close>.
\<close>

definition analysis_keys :: "string list" where
  "analysis_keys =
    [''resistance'', ''capacitance'', ''voltage_rating'', ''inductance'', ''current_rating'',
     ''voltage'', ''voltage_rms'', ''internal_resistance'', ''power'']"

definition analysis_defaults :: params where
  "analysis_defaults =
    [''resistance'' \<mapsto> Num 0, ''capacitance'' \<mapsto> Num 0, ''voltage_rating'' \<mapsto> Num 0,
     ''inductance'' \<mapsto> Num 0, ''current_rating'' \<mapsto> Num 0, ''voltage'' \<mapsto> Num 0,
     ''voltage_rms'' \<mapsto> Num 0, ''internal_resistance'' \<mapsto> Num 1, ''power'' \<mapsto> Num 0]"

text \<open>No parameter that the analysis reads holds a string.\<close>

definition numeric_params :: "component \<Rightarrow> bool" where
  "numeric_params c =
    list_all (\<lambda>k. case params c k of Some (Str _) \<Rightarrow> False | _ \<Rightarrow> True) analysis_keys"

definition nonzero_internal_resistance :: "component \<Rightarrow> bool" where
  "nonzero_internal_resistance c =
    (comp_type c \<in> {''Battery'', ''AC Source''} \<longrightarrow>
       params c ''internal_resistance'' \<noteq> Some (Num 0))"

text \<open>No parameter that the analysis squares has a square too large for a float.\<close>

definition squares_fit :: "component \<Rightarrow> bool" where
  "squares_fit c =
    ((comp_type c = ''Capacitor'' \<longrightarrow>
        (num_of (get (params c) ''voltage_rating'' (Num 0)))\<^sup>2 < overflow_bound)
   \<and> (comp_type c = ''Inductor'' \<longrightarrow>
        (num_of (get (params c) ''current_rating'' (Num 0)))\<^sup>2 < overflow_bound)
   \<and> (comp_type c \<in> {''Battery'', ''AC Source''} \<longrightarrow>
        (num_of (py_or (get (params c) ''voltage'' (Num 0))
                       (get (params c) ''voltage_rms'' (Num 0))))\<^sup>2 < overflow_bound))"

text \<open>A component with every missing analysis parameter written out as its default.\<close>

definition with_defaults :: "component \<Rightarrow> component" where
  "with_defaults c = c\<lparr>params := analysis_defaults ++ params c\<rparr>"

text \<open>A result without the copies of the params, which \<open>with_defaults\<close> changes.\<close>

definition forget_parameters :: "results \<Rightarrow> results" where
  "forget_parameters res =
    res\<lparr>component_analysis :=
          map (\<lambda>e. e\<lparr>parameters := Map.empty\<rparr>) (component_analysis res)\<rparr>"

text \<open>
  Example inputs: a component placed at the position the widgets start with, a session
  that holds the given components and nothing else, and params with the catalog's keys.
\<close>

definition place :: "int \<Rightarrow> string \<Rightarrow> params \<Rightarrow> component" where
  "place i t ps = \<lparr>comp_id = i, comp_type = t, pos_x = 2, pos_y = 2, params = ps\<rparr>"

definition circuit :: "component list \<Rightarrow> session" where
  "circuit cs =
    \<lparr>circuit_components = cs, connections = [], analysis_results = None,
     component_counter = int (length cs)\<rparr>"

definition resistor_params :: "real \<Rightarrow> params" where
  "resistor_params r =
    [''resistance'' \<mapsto> Num r, ''power_rating'' \<mapsto> Num 0.25, ''tolerance'' \<mapsto> Num 5]"

definition capacitor_params :: "real \<Rightarrow> real \<Rightarrow> params" where
  "capacitor_params c v =
    [''capacitance'' \<mapsto> Num c, ''voltage_rating'' \<mapsto> Num v, ''type'' \<mapsto> Str ''Ceramic'']"

definition battery_params :: "real \<Rightarrow> real \<Rightarrow> params" where
  "battery_params v r =
    [''voltage'' \<mapsto> Num v, ''capacity'' \<mapsto> Num 1000, ''internal_resistance'' \<mapsto> Num r]"

definition ac_source_params :: "real \<Rightarrow> params" where
  "ac_source_params v =
    [''voltage_rms'' \<mapsto> Num v, ''frequency'' \<mapsto> Num 50, ''phase'' \<mapsto> Num 0]"

definition transistor_params :: params where
  "transistor_params = [''beta'' \<mapsto> Num 100, ''vbe'' \<mapsto> Num 0.7, ''vce_sat'' \<mapsto> Num 0.2]"

definition load_params :: "real \<Rightarrow> real \<Rightarrow> params" where
  "load_params p v =
    [''power'' \<mapsto> Num p, ''voltage'' \<mapsto> Num v, ''type'' \<mapsto> Str ''Resistive'']"

text \<open>The terms of the arctangent series, for the numeric value of \<open>pi\<close>.\<close>

definition odd_term :: "real \<Rightarrow> nat \<Rightarrow> real" where
  "odd_term z k = 1 / real (k * 2 + 1) * z ^ (k * 2 + 1)"

text \<open>
  The sessions the handlers can produce, starting from the empty one. A component
  conforms to the catalog when its params have the keys of its type's entry and each value
  is of the kind (number or string) of the entry's value.
\<close>

definition same_kind :: "pval option \<Rightarrow> pval option \<Rightarrow> bool" where
  "same_kind a b =
    (case (a, b) of
       (None, None) \<Rightarrow> True
     | (Some (Num _), Some (Num _)) \<Rightarrow> True
     | (Some (Str _), Some (Str _)) \<Rightarrow> True
     | _ \<Rightarrow> False)"

definition conforms :: "component \<Rightarrow> bool" where
  "conforms c =
    (case COMPONENTS (comp_type c) of
       None \<Rightarrow> False
     | Some dflt \<Rightarrow> \<forall>k. same_kind (params c k) (dflt k))"

definition invariant :: "session \<Rightarrow> bool" where
  "invariant s \<longleftrightarrow>
     (\<forall>c \<in> set (circuit_components s). conforms c \<and> comp_id c \<le> component_counter s)
   \<and> distinct (map comp_id (circuit_components s))
   \<and> (\<forall>n \<in> set (connections s). from_comp n \<noteq> to_comp n)"

inductive reachable :: "session \<Rightarrow> bool" where
  start: "reachable init_session"
| added: "reachable s \<Longrightarrow> reachable (snd (add_component t px py s))"
| connected: "reachable s \<Longrightarrow> connect_components from_label to_label s = Inr (m, s') \<Longrightarrow>
    reachable s'"
| cleared: "reachable s \<Longrightarrow> reachable (clear s)"
| analyzed: "reachable s \<Longrightarrow> analyze_circuit s = Inr s' \<Longrightarrow> reachable s'"
| edited: "reachable s \<Longrightarrow> edit_component selected text_input number_input s = Inr s' \<Longrightarrow>
    reachable s'"

section \<open>Lemmas about the analysis loop\<close>

lemma square_Inr: "square v = Inr w \<longleftrightarrow> v ^ 2 < overflow_bound \<and> w = v ^ 2"
  by (auto simp: square_def)

lemma square_Inl: "square v = Inl e \<longleftrightarrow> overflow_bound \<le> v ^ 2 \<and> e = OverflowError"
  by (auto simp: square_def)

lemma square_small:
  assumes "\<bar>v\<bar> \<le> 10 ^ 6"
  shows "square v = Inr (v ^ 2)"
proof -
  have "v ^ 2 = \<bar>v\<bar> ^ 2" by simp
  also have "\<dots> \<le> (10 ^ 6) ^ 2"
    using assms by (intro power_mono) auto
  also have "\<dots> < overflow_bound"
    by (simp add: overflow_bound_def)
  finally show ?thesis by (simp add: square_def)
qed

lemma small_fits: "\<bar>v\<bar> \<le> 10 ^ 6 \<Longrightarrow> v ^ 2 < overflow_bound"
  using square_small [of v] by (simp add: square_Inr)

lemma square_large:
  assumes "10 ^ 155 \<le> \<bar>v\<bar>"
  shows "square v = Inl OverflowError"
proof -
  have "overflow_bound \<le> (10 ^ 155) ^ 2"
    by (simp add: overflow_bound_def)
  also have "\<dots> \<le> \<bar>v\<bar> ^ 2"
    using assms by (intro power_mono) auto
  finally show ?thesis by (simp add: square_def)
qed

lemmas branch_defs = analyze_branch_def analyze_resistor_def analyze_capacitor_def
  analyze_inductor_def analyze_source_def analyze_load_def py_or_def Let_def

lemmas example_defs = place_def circuit_def resistor_params_def capacitor_params_def
  battery_params_def ac_source_params_def load_params_def transistor_params_def

lemmas eval_defs = calculate_circuit_parameters_def analyze_component_def branch_defs
  init_results_def overall_def get_def example_defs square_small

lemma catalog_examples:
  "COMPONENTS ''Resistor'' = Some (resistor_params 1000)"
  "COMPONENTS ''Capacitor'' = Some (capacitor_params (100 / 10 ^ 6) 25)"
  "COMPONENTS ''Battery'' = Some (battery_params 9 0.1)"
  "COMPONENTS ''AC Source'' = Some (ac_source_params 120)"
  "COMPONENTS ''Load'' = Some (load_params 100 12)"
  "COMPONENTS ''Transistor (NPN)'' = Some transistor_params"
  by (simp_all add: COMPONENTS_def example_defs)

lemma analyze_branch_frame:
  "analyze_branch c r = Inr (r1, calc) \<Longrightarrow>
     component_analysis r1 = component_analysis r \<and> circuit_current r1 = circuit_current r
     \<and> total_power r1 = total_power r"
  by (auto simp: branch_defs split: pval.splits if_splits sum.splits)

lemma analyze_component_Inr:
  "analyze_component c r = Inr r' \<Longrightarrow>
     \<exists>r1 calc. analyze_branch c r = Inr (r1, calc) \<and>
       r' = r1\<lparr>component_analysis := component_analysis r @
               [\<lparr>ca_id = comp_id c, ca_type = comp_type c, parameters = params c,
                 calculated = calc\<rparr>]\<rparr>"
  by (auto simp: analyze_component_def dest: analyze_branch_frame split: sum.splits)

lemma analyze_components_frame:
  "analyze_components cs r = Inr r' \<Longrightarrow>
     circuit_current r' = circuit_current r \<and> total_power r' = total_power r"
proof (induction cs arbitrary: r)
  case Nil
  then show ?case by simp
next
  case (Cons c cs)
  from Cons.prems obtain r1 where s: "analyze_component c r = Inr r1"
    and rest: "analyze_components cs r1 = Inr r'"
    by (auto split: sum.splits)
  from analyze_component_Inr [OF s] analyze_branch_frame
  have "circuit_current r1 = circuit_current r \<and> total_power r1 = total_power r"
    by fastforce
  with Cons.IH [OF rest] show ?case by simp
qed

lemma analyze_components_entries:
  "analyze_components cs r = Inr r' \<Longrightarrow>
     \<exists>es. component_analysis r' = component_analysis r @ es \<and> list_all2 entry_ok cs es"
proof (induction cs arbitrary: r)
  case Nil
  then show ?case by simp
next
  case (Cons c cs)
  from Cons.prems obtain r1 where s: "analyze_component c r = Inr r1"
    and rest: "analyze_components cs r1 = Inr r'"
    by (auto split: sum.splits)
  from analyze_component_Inr [OF s] obtain r2 calc where
    b: "analyze_branch c r = Inr (r2, calc)" and
    r1: "component_analysis r1 = component_analysis r @
               [\<lparr>ca_id = comp_id c, ca_type = comp_type c, parameters = params c,
                 calculated = calc\<rparr>]"
    by auto
  from Cons.IH [OF rest] obtain es where
    es: "component_analysis r' = component_analysis r1 @ es" "list_all2 entry_ok cs es"
    by blast
  have "entry_ok c \<lparr>ca_id = comp_id c, ca_type = comp_type c, parameters = params c,
                 calculated = calc\<rparr>"
    unfolding entry_ok_def using b by blast
  with es r1 show ?case by simp
qed

lemma calculate_entries:
  assumes "calculate_circuit_parameters s = Inr res"
  shows "list_all2 entry_ok (circuit_components s) (component_analysis res)"
proof -
  from assms obtain r where r: "analyze_components (circuit_components s) init_results = Inr r"
    and res: "res = overall r"
    by (auto simp: calculate_circuit_parameters_def split: sum.splits)
  have "component_analysis res = component_analysis r"
    by (simp add: res overall_def Let_def)
  with analyze_components_entries [OF r] show ?thesis
    by (simp add: init_results_def)
qed


lemma analyze_components_sum:
  fixes f :: "results \<Rightarrow> real"
  assumes step: "\<And>c r r'. analyze_component c r = Inr r' \<Longrightarrow> f r' = f r + d c"
  shows "analyze_components cs r = Inr r' \<Longrightarrow> f r' = f r + sum_list (map d cs)"
proof (induction cs arbitrary: r)
  case Nil
  then show ?case by simp
next
  case (Cons c cs)
  from Cons.prems obtain r1 where s: "analyze_component c r = Inr r1"
    and rest: "analyze_components cs r1 = Inr r'"
    by (auto split: sum.splits)
  from step [OF s] Cons.IH [OF rest] show ?case by simp
qed

lemma analyze_components_concat:
  fixes f :: "results \<Rightarrow> real list"
  assumes step: "\<And>c r r'. c \<in> set cs \<Longrightarrow> analyze_component c r = Inr r' \<Longrightarrow> f r' = f r @ d c"
  shows "analyze_components cs r = Inr r' \<Longrightarrow> f r' = f r @ concat (map d cs)"
  using step
proof (induction cs arbitrary: r)
  case Nil
  then show ?case by simp
next
  case (Cons c cs)
  from Cons.prems obtain r1 where s: "analyze_component c r = Inr r1"
    and rest: "analyze_components cs r1 = Inr r'"
    by (auto split: sum.splits)
  have "f r1 = f r @ d c" using Cons.prems(2) s by simp
  moreover have "f r' = f r1 @ concat (map d cs)"
    using Cons.IH [OF rest] Cons.prems(2) by simp
  ultimately show ?case by simp
qed

lemma step_power_consumption:
  "analyze_component c r = Inr r' \<Longrightarrow>
     power_consumption r' = power_consumption r +
       (if comp_type c = ''Load'' then num_of (get (params c) ''power'' (Num 0)) else 0)"
  by (auto simp: analyze_component_def branch_defs split: sum.splits pval.splits if_splits)

lemma step_total_resistance:
  "analyze_component c r = Inr r' \<Longrightarrow>
     total_resistance r' = total_resistance r +
       (if comp_type c = ''Resistor'' then num_of (get (params c) ''resistance'' (Num 0)) else 0)"
  by (auto simp: analyze_component_def branch_defs split: sum.splits pval.splits if_splits)

lemma step_total_capacitance:
  "analyze_component c r = Inr r' \<Longrightarrow>
     total_capacitance r' = total_capacitance r +
       (if comp_type c = ''Capacitor'' \<and> num_of (get (params c) ''capacitance'' (Num 0)) > 0
        then num_of (get (params c) ''capacitance'' (Num 0)) else 0)"
  by (auto simp: analyze_component_def branch_defs split: sum.splits pval.splits if_splits)

lemma not_truthy_num_of: "\<not> truthy v \<Longrightarrow> num_of v = 0"
  by (cases v) auto

lemma step_voltage_sources:
  "analyze_component c r = Inr r' \<Longrightarrow>
     voltage_sources r' = voltage_sources r @
       (if comp_type c \<in> {''Battery'', ''AC Source''} then [source_voltage c] else [])"
  by (auto simp: analyze_component_def analyze_branch_def analyze_resistor_def
        analyze_capacitor_def analyze_inductor_def analyze_source_def analyze_load_def
        Let_def source_voltage_def
       split: sum.splits pval.splits if_splits)

lemma source_voltage_by_type:
  assumes "comp_type c = ''Battery'' \<longrightarrow> params c ''voltage_rms'' = None"
    and "comp_type c = ''AC Source'' \<longrightarrow> params c ''voltage'' = None"
    and "comp_type c \<in> {''Battery'', ''AC Source''}"
  shows "source_voltage c = effective_voltage c"
  using assms
  by (auto simp: source_voltage_def effective_voltage_def py_or_def get_def
        dest: not_truthy_num_of)

lemma calculate_Inr:
  assumes "calculate_circuit_parameters s = Inr res"
  obtains r where "analyze_components (circuit_components s) init_results = Inr r"
    and "res = overall r"
  using assms by (auto simp: calculate_circuit_parameters_def split: sum.splits)

lemma overall_fields:
  "total_resistance (overall r) = total_resistance r"
  "total_capacitance (overall r) = total_capacitance r"
  "total_inductance (overall r) = total_inductance r"
  "voltage_sources (overall r) = voltage_sources r"
  "power_consumption (overall r) = power_consumption r"
  "component_analysis (overall r) = component_analysis r"
  by (simp_all add: overall_def Let_def)

lemma entry_okD:
  assumes "calculate_circuit_parameters s = Inr res" and "i < length (circuit_components s)"
  obtains ra rb calc where
    "analyze_branch (circuit_components s ! i) ra = Inr (rb, calc)"
    "component_analysis res ! i =
       \<lparr>ca_id = comp_id (circuit_components s ! i), ca_type = comp_type (circuit_components s ! i),
        parameters = params (circuit_components s ! i), calculated = calc\<rparr>"
proof -
  from calculate_entries [OF assms(1)] assms(2)
  have "entry_ok (circuit_components s ! i) (component_analysis res ! i)"
    by (rule list_all2_nthD)
  then show ?thesis unfolding entry_ok_def using that by blast
qed

lemma resistor_battery_result:
  "calculate_circuit_parameters
     (circuit [place 1 ''Resistor'' (resistor_params 2000),
               place 2 ''Battery'' (battery_params 9 0.1)]) =
   Inr \<lparr>total_resistance = 2000, total_capacitance = 0, total_inductance = 0,
        voltage_sources = [9], power_consumption = 0,
        component_analysis =
          [\<lparr>ca_id = 1, ca_type = ''Resistor'', parameters = resistor_params 2000,
            calculated = Some [(''power_dissipated'', Fin 0.002), (''voltage_drop'', Fin 2)]\<rparr>,
           \<lparr>ca_id = 2, ca_type = ''Battery'', parameters = battery_params 9 0.1,
            calculated = Some [(''max_power'', Fin 810)]\<rparr>],
        circuit_current = Some 0.0045, total_power = Some 0.0405\<rparr>"
  by (simp add: eval_defs power2_eq_square)

section \<open>Lemmas about the labels\<close>

text \<open>
  \<^verbatim>\<open>int(str(i))\<close> is \<open>i\<close>, so the label of a component whose type has no parenthesis
  reads back as its id. The label of a Transistor (NPN) does not: the part between the
  first two parentheses is \<^verbatim>\<open>NPN\<close>, and \<^verbatim>\<open>int('NPN')\<close> raises.
\<close>

declare str_nat.simps [simp del]

lemma digit_char_props:
  "d < 10 \<Longrightarrow> is_digit (digit_char d) \<and> digit_val (digit_char d) = d"
  by (simp add: is_digit_def digit_val_def digit_char_def)

lemma parse_digits_all:
  "list_all is_digit ds \<Longrightarrow>
     parse_digits acc ds = Some (foldl (\<lambda>a ch. 10 * a + digit_val ch) acc ds)"
  by (induction ds arbitrary: acc) auto

lemma str_nat_digits:
  "list_all is_digit (str_nat n) \<and> str_nat n \<noteq> []
   \<and> foldl (\<lambda>a ch. 10 * a + digit_val ch) 0 (str_nat n) = n"
proof (induction n rule: str_nat.induct)
  case (1 n)
  show ?case
  proof (cases "n < 10")
    case True
    then show ?thesis
      by (subst (1 2 3) str_nat.simps) (simp add: digit_char_props)
  next
    case False
    with 1 have ih: "list_all is_digit (str_nat (n div 10))"
      "foldl (\<lambda>a ch. 10 * a + digit_val ch) 0 (str_nat (n div 10)) = n div 10"
      by simp_all
    have d: "is_digit (digit_char (n mod 10))" "digit_val (digit_char (n mod 10)) = n mod 10"
      by (simp_all add: digit_char_props)
    from False ih d show ?thesis
      by (subst (1 2 3) str_nat.simps) simp
  qed
qed

lemma parse_nat_str_nat: "parse_nat (str_nat n) = Some n"
proof -
  obtain ch rest where s: "str_nat n = ch # rest"
    using str_nat_digits [of n] by (cases "str_nat n") auto
  with str_nat_digits [of n] have "is_digit ch" by simp
  with s str_nat_digits [of n] parse_digits_all [of "str_nat n" 0] show ?thesis
    by (simp add: parse_nat_def)
qed


lemma digit_not_special:
  "is_digit ch \<Longrightarrow> \<not> is_space ch \<and> ch \<noteq> CHR ''('' \<and> ch \<noteq> CHR '')''
     \<and> ch \<noteq> CHR ''-'' \<and> ch \<noteq> CHR ''+''"
  by (auto simp: is_digit_def is_space_def)

lemma strip_id:
  assumes "s \<noteq> []" "\<not> is_space (hd s)" "\<not> is_space (last s)"
  shows "strip s = s"
proof -
  from assms have 1: "dropWhile is_space s = s"
    by (cases s) auto
  from assms have "dropWhile is_space (rev s) = rev s"
    by (cases "rev s") (auto simp: hd_rev)
  with 1 show ?thesis by (simp add: strip_def)
qed

lemma str_nat_chars:
  "ch \<in> set (str_nat n) \<Longrightarrow> is_digit ch"
  using str_nat_digits [of n] by (simp add: list_all_iff)

lemma str_int_chars:
  "ch \<in> set (str_int i) \<Longrightarrow> ch \<noteq> CHR ''('' \<and> ch \<noteq> CHR '')''"
  using digit_not_special str_nat_chars by (auto simp: str_int_def split: if_splits)

lemma py_int_str_int: "py_int (str_int i) = Inr i"
proof (cases "i < 0")
  case True
  let ?ds = "str_nat (nat (- i))"
  have ne: "?ds \<noteq> []" using str_nat_digits by blast
  then have "last ?ds \<in> set ?ds" by simp
  then have "is_digit (last ?ds)" by (rule str_nat_chars)
  then have "\<not> is_space (last ?ds)" using digit_not_special by blast
  then have "\<not> is_space (last (CHR ''-'' # ?ds))"
    using ne by simp
  moreover have "\<not> is_space CHR ''-''"
    by (simp add: is_space_def)
  ultimately have "strip (CHR ''-'' # ?ds) = CHR ''-'' # ?ds"
    by (intro strip_id) simp_all
  with True show ?thesis
    by (simp add: py_int_def str_int_def parse_nat_str_nat)
next
  case False
  let ?ds = "str_nat (nat i)"
  obtain ch rest where s: "?ds = ch # rest"
    using str_nat_digits [of "nat i"] by (cases ?ds) auto
  then have "ch \<in> set ?ds" and "last ?ds \<in> set ?ds" by simp_all
  then have d: "is_digit ch" "is_digit (last ?ds)"
    using str_nat_chars by blast+
  then have "strip ?ds = ?ds"
    using s digit_not_special by (intro strip_id) auto
  moreover have "parse_nat (ch # rest) = Some (nat i)"
    using parse_nat_str_nat [of "nat i"] s by simp
  ultimately show ?thesis
    using False d(1) digit_not_special [of ch] s
    by (simp add: py_int_def str_int_def)
qed

lemma split_on_nonempty: "split_on sep s \<noteq> []"
  by (induction s) (auto simp: Let_def)

lemma split_on_absent: "sep \<notin> set a \<Longrightarrow> split_on sep a = [a]"
  by (induction a) (auto simp: Let_def)

lemma split_on_first: "sep \<notin> set a \<Longrightarrow> split_on sep (a @ sep # b) = a # split_on sep b"
  by (induction a) (auto simp: Let_def)

lemma parse_id_label:
  assumes "CHR ''('' \<notin> set t"
  shows "parse_id (t @ '' ('' @ str_int i @ '')'') = Inr i"
proof -
  have a: "CHR ''('' \<notin> set (t @ '' '')" using assms by simp
  have b: "CHR ''('' \<notin> set (str_int i @ '')'')"
    using str_int_chars by auto
  have "split_on CHR ''('' ((t @ '' '') @ CHR ''('' # (str_int i @ '')'')) =
      [t @ '' '', str_int i @ '')'']"
    by (simp only: split_on_first [OF a] split_on_absent [OF b])
  moreover have "split_on CHR '')'' (str_int i @ CHR '')'' # []) = [str_int i, []]"
    using str_int_chars [of "CHR '')''" i]
    by (subst split_on_first) auto
  ultimately show ?thesis
    by (simp add: parse_id_def py_int_str_int)
qed

lemma parse_id_transistor:
  "parse_id (''Transistor (NPN)'' @ '' ('' @ str_int i @ '')'') = Inl ValueError"
proof -
  have "split_on CHR ''('' (''Transistor (NPN)'' @ '' ('' @ str_int i @ '')'') =
      ''Transistor '' # ''NPN) '' # split_on CHR ''('' (str_int i @ '')'')"
    by (simp add: Let_def)
  moreover have "py_int (hd (split_on CHR '')'' ''NPN) '')) = Inl ValueError"
    by (simp add: py_int_def strip_def is_space_def parse_nat_def is_digit_def Let_def)
  ultimately show ?thesis
    by (simp add: parse_id_def)
qed

lemma parse_id_option_label:
  "CHR ''('' \<notin> set (comp_type c) \<Longrightarrow> parse_id (option_label c) = Inr (comp_id c)"
  unfolding option_label_def by (rule parse_id_label)

lemma parse_id_transistor_label:
  "comp_type c = ''Transistor (NPN)'' \<Longrightarrow> parse_id (option_label c) = Inl ValueError"
  unfolding option_label_def by (simp only: parse_id_transistor)

lemma catalog_no_parenthesis:
  "COMPONENTS t = Some dflt \<Longrightarrow> t \<noteq> ''Transistor (NPN)'' \<Longrightarrow> CHR ''('' \<notin> set t"
  by (auto simp: COMPONENTS_def split: if_splits)

lemma option_label_nonempty: "option_label c \<noteq> []"
  by (simp add: option_label_def)

lemma digit_chars:
  "digit_char 0 = CHR ''0''" "digit_char 1 = CHR ''1''" "digit_char 2 = CHR ''2''"
  "digit_char 3 = CHR ''3''" "digit_char 4 = CHR ''4''" "digit_char 5 = CHR ''5''"
  "digit_char 6 = CHR ''6''" "digit_char 7 = CHR ''7''" "digit_char 8 = CHR ''8''"
  "digit_char 9 = CHR ''9''" "digit_char (Suc 0) = CHR ''1''"
  by code_simp+

lemmas label_eval = option_label_def comp_options_def str_int_def str_nat.simps digit_chars
  parse_id_def py_int_def parse_nat_def strip_def is_space_def is_digit_def digit_val_def
  Let_def

section \<open>The claims\<close>

subsection \<open>C1: when the analysis returns\<close>

lemma numeric_get:
  assumes "numeric_params c" and "k \<in> set analysis_keys"
  shows "\<exists>r. get (params c) k (Num d) = Num r"
proof -
  from assms have "case params c k of Some (Str _) \<Rightarrow> False | _ \<Rightarrow> True"
    by (simp add: numeric_params_def list_all_iff)
  then show ?thesis
    by (cases "params c k"; cases "the (params c k)") (simp_all add: get_def)
qed

lemma analyze_branch_total:
  assumes "numeric_params c" and "nonzero_internal_resistance c" and "squares_fit c"
  shows "\<exists>r1 calc. analyze_branch c r = Inr (r1, calc)"
proof -
  have g: "\<And>k d. k \<in> set analysis_keys \<Longrightarrow> \<exists>v. get (params c) k (Num d) = Num v"
    using assms(1) by (rule numeric_get)
  obtain a1 where a1: "get (params c) ''resistance'' (Num 0) = Num a1"
    using g [of "''resistance''" 0] by (auto simp: analysis_keys_def)
  obtain a2 where a2: "get (params c) ''capacitance'' (Num 0) = Num a2"
    using g [of "''capacitance''" 0] by (auto simp: analysis_keys_def)
  obtain a3 where a3: "get (params c) ''voltage_rating'' (Num 0) = Num a3"
    using g [of "''voltage_rating''" 0] by (auto simp: analysis_keys_def)
  obtain a4 where a4: "get (params c) ''inductance'' (Num 0) = Num a4"
    using g [of "''inductance''" 0] by (auto simp: analysis_keys_def)
  obtain a5 where a5: "get (params c) ''current_rating'' (Num 0) = Num a5"
    using g [of "''current_rating''" 0] by (auto simp: analysis_keys_def)
  obtain a6 where a6: "get (params c) ''voltage'' (Num 0) = Num a6"
    using g [of "''voltage''" 0] by (auto simp: analysis_keys_def)
  obtain a7 where a7: "get (params c) ''voltage_rms'' (Num 0) = Num a7"
    using g [of "''voltage_rms''" 0] by (auto simp: analysis_keys_def)
  obtain a8 where a8: "get (params c) ''internal_resistance'' (Num 1) = Num a8"
    using g [of "''internal_resistance''" 1] by (auto simp: analysis_keys_def)
  obtain a9 where a9: "get (params c) ''power'' (Num 0) = Num a9"
    using g [of "''power''" 0] by (auto simp: analysis_keys_def)
  have nz: "comp_type c \<in> {''Battery'', ''AC Source''} \<Longrightarrow> a8 \<noteq> 0"
    using assms(2) a8
    by (auto simp: nonzero_internal_resistance_def get_def split: option.splits)
  have s3: "comp_type c = ''Capacitor'' \<Longrightarrow> square a3 = Inr (a3 ^ 2)"
    using assms(3) a3 by (simp add: squares_fit_def square_Inr)
  have s5: "comp_type c = ''Inductor'' \<Longrightarrow> square a5 = Inr (a5 ^ 2)"
    using assms(3) a5 by (simp add: squares_fit_def square_Inr)
  have "\<exists>v. py_or (Num a6) (Num a7) = Num v"
    by (simp add: py_or_def)
  then obtain v where v: "py_or (Num a6) (Num a7) = Num v" ..
  have sv: "comp_type c \<in> {''Battery'', ''AC Source''} \<Longrightarrow> square v = Inr (v ^ 2)"
    using assms(3) v by (simp add: squares_fit_def square_Inr a6 a7)
  show ?thesis
    using nz s3 s5 sv
    by (auto simp: analyze_branch_def analyze_resistor_def analyze_capacitor_def
          analyze_inductor_def analyze_source_def analyze_load_def Let_def
          a1 a2 a3 a4 a5 a6 a7 a8 a9 v)
qed

lemma analyze_components_total:
  "\<forall>c \<in> set cs. numeric_params c \<and> nonzero_internal_resistance c \<and> squares_fit c \<Longrightarrow>
     \<exists>r'. analyze_components cs r = Inr r'"
proof (induction cs arbitrary: r)
  case Nil
  then show ?case by simp
next
  case (Cons c cs)
  then obtain r1 calc where "analyze_branch c r = Inr (r1, calc)"
    using analyze_branch_total [of c r] by auto
  then obtain r2 where "analyze_component c r = Inr r2"
    by (simp add: analyze_component_def)
  moreover obtain r' where "analyze_components cs r2 = Inr r'"
    using Cons.IH [of r2] Cons.prems by auto
  ultimately show ?case by simp
qed

lemma get_with_defaults:
  "analysis_defaults k = Some d \<Longrightarrow> get (analysis_defaults ++ ps) k d = get ps k d"
  by (simp add: get_def map_add_def split: option.splits)

lemma analyze_branch_with_defaults:
  "analyze_branch (with_defaults c) r = analyze_branch c r"
proof -
  have gets:
    "get (analysis_defaults ++ params c) ''resistance'' (Num 0) =
       get (params c) ''resistance'' (Num 0)"
    "get (analysis_defaults ++ params c) ''capacitance'' (Num 0) =
       get (params c) ''capacitance'' (Num 0)"
    "get (analysis_defaults ++ params c) ''voltage_rating'' (Num 0) =
       get (params c) ''voltage_rating'' (Num 0)"
    "get (analysis_defaults ++ params c) ''inductance'' (Num 0) =
       get (params c) ''inductance'' (Num 0)"
    "get (analysis_defaults ++ params c) ''current_rating'' (Num 0) =
       get (params c) ''current_rating'' (Num 0)"
    "get (analysis_defaults ++ params c) ''voltage'' (Num 0) =
       get (params c) ''voltage'' (Num 0)"
    "get (analysis_defaults ++ params c) ''voltage_rms'' (Num 0) =
       get (params c) ''voltage_rms'' (Num 0)"
    "get (analysis_defaults ++ params c) ''internal_resistance'' (Num 1) =
       get (params c) ''internal_resistance'' (Num 1)"
    "get (analysis_defaults ++ params c) ''power'' (Num 0) =
       get (params c) ''power'' (Num 0)"
    by (rule get_with_defaults, simp add: analysis_defaults_def)+
  have sel: "params (with_defaults c) = analysis_defaults ++ params c"
    "comp_type (with_defaults c) = comp_type c"
    by (simp_all add: with_defaults_def)
  show ?thesis
    unfolding analyze_branch_def analyze_resistor_def analyze_capacitor_def
      analyze_inductor_def analyze_source_def analyze_load_def sel gets ..
qed

lemma analyze_branch_entries:
  "analyze_branch c (r\<lparr>component_analysis := es\<rparr>) =
     map_sum id (\<lambda>(r1, calc). (r1\<lparr>component_analysis := es\<rparr>, calc)) (analyze_branch c r)"
proof -
  let ?f = "map_sum id (\<lambda>(r1, calc). (r1\<lparr>component_analysis := es\<rparr>, calc))"
  have 1: "analyze_resistor ps (r\<lparr>component_analysis := es\<rparr>) = ?f (analyze_resistor ps r)"
    for ps
    by (simp add: analyze_resistor_def Let_def split: pval.splits)
  have 2: "analyze_capacitor ps (r\<lparr>component_analysis := es\<rparr>) = ?f (analyze_capacitor ps r)"
    for ps
    by (simp add: analyze_capacitor_def Let_def split: pval.splits sum.splits)
  have 3: "analyze_inductor ps (r\<lparr>component_analysis := es\<rparr>) = ?f (analyze_inductor ps r)"
    for ps
    by (simp add: analyze_inductor_def Let_def split: pval.splits sum.splits)
  have 4: "analyze_source ps (r\<lparr>component_analysis := es\<rparr>) = ?f (analyze_source ps r)"
    for ps
    by (simp add: analyze_source_def Let_def split: pval.splits sum.splits)
  have 5: "analyze_load ps (r\<lparr>component_analysis := es\<rparr>) = ?f (analyze_load ps r)"
    for ps
    by (simp add: analyze_load_def Let_def split: pval.splits)
  show ?thesis
    by (simp add: analyze_branch_def 1 2 3 4 5)
qed

lemma forget_eq_iff:
  "forget_parameters r1 = forget_parameters r2 \<longleftrightarrow>
     (\<exists>es. r1 = r2\<lparr>component_analysis := es\<rparr> \<and>
        map (\<lambda>e. e\<lparr>parameters := Map.empty\<rparr>) es =
        map (\<lambda>e. e\<lparr>parameters := Map.empty\<rparr>) (component_analysis r2))"
  unfolding forget_parameters_def
  by (cases r1; cases r2) auto

lemma analyze_component_forget:
  assumes "forget_parameters r1 = forget_parameters r2"
  shows "rel_sum (=) (\<lambda>a b. forget_parameters a = forget_parameters b)
           (analyze_component (with_defaults c) r1) (analyze_component c r2)"
proof -
  from assms obtain es where
    r1: "r1 = r2\<lparr>component_analysis := es\<rparr>" and
    es: "map (\<lambda>e. e\<lparr>parameters := Map.empty\<rparr>) es =
        map (\<lambda>e. e\<lparr>parameters := Map.empty\<rparr>) (component_analysis r2)"
    unfolding forget_eq_iff by blast
  show ?thesis
  proof (cases "analyze_branch c r2")
    case (Inl e)
    then show ?thesis
      by (simp add: analyze_component_def analyze_branch_with_defaults r1 analyze_branch_entries)
  next
    case (Inr p)
    obtain r3 calc where p: "p = (r3, calc)" by (cases p)
    from Inr p have ca: "component_analysis r3 = component_analysis r2"
      using analyze_branch_frame by blast
    have ids: "comp_id (with_defaults c) = comp_id c" "comp_type (with_defaults c) = comp_type c"
      by (simp_all add: with_defaults_def)
    with Inr p es show ?thesis
      by (simp add: analyze_component_def analyze_branch_with_defaults r1 analyze_branch_entries
            forget_parameters_def ids ca)
  qed
qed

lemma analyze_components_forget:
  "forget_parameters r1 = forget_parameters r2 \<Longrightarrow>
     rel_sum (=) (\<lambda>a b. forget_parameters a = forget_parameters b)
       (analyze_components (map with_defaults cs) r1) (analyze_components cs r2)"
proof (induction cs arbitrary: r1 r2)
  case Nil
  then show ?case by simp
next
  case (Cons c cs)
  from analyze_component_forget [OF Cons.prems, of c] Cons.IH show ?case
    by (cases "analyze_component (with_defaults c) r1"; cases "analyze_component c r2") auto
qed

lemma overall_forget:
  "forget_parameters a = forget_parameters b \<Longrightarrow>
   forget_parameters (overall a) = forget_parameters (overall b)"
proof -
  have "forget_parameters (overall r) = overall (forget_parameters r)" for r
    by (simp add: overall_def forget_parameters_def Let_def)
  then show "forget_parameters a = forget_parameters b \<Longrightarrow>
   forget_parameters (overall a) = forget_parameters (overall b)"
    by simp
qed

lemma calculate_with_defaults:
  "map_sum id forget_parameters
     (calculate_circuit_parameters
        (s\<lparr>circuit_components := map with_defaults (circuit_components s)\<rparr>)) =
   map_sum id forget_parameters (calculate_circuit_parameters s)"
  using analyze_components_forget [OF refl, of "circuit_components s" init_results]
  by (cases "analyze_components (map with_defaults (circuit_components s)) init_results";
      cases "analyze_components (circuit_components s) init_results")
     (auto simp: calculate_circuit_parameters_def dest: overall_forget)

text \<open>
  Claim C1, as the code has it. For every circuit in which no parameter that the analysis
  reads holds a string, no Battery or AC Source has an \<^verbatim>\<open>internal_resistance\<close>
  parameter equal to 0, and no parameter that the analysis squares is too large for its
  square to be a float, the analysis returns a result. A missing parameter is read as 0,
  except a missing \<^verbatim>\<open>internal_resistance\<close>, which is read as 1: writing these defaults
  into the params of every component changes nothing of the outcome but the copies of
  the params in the entries.
\<close>

theorem analysis_total_when_guarded:
  assumes "\<forall>c \<in> set (circuit_components s).
             numeric_params c \<and> nonzero_internal_resistance c \<and> squares_fit c"
  shows "(\<exists>res. calculate_circuit_parameters s = Inr res)
       \<and> map_sum id forget_parameters
            (calculate_circuit_parameters
               (s\<lparr>circuit_components := map with_defaults (circuit_components s)\<rparr>)) =
         map_sum id forget_parameters (calculate_circuit_parameters s)"
proof
  from assms obtain r where "analyze_components (circuit_components s) init_results = Inr r"
    using analyze_components_total by blast
  then show "\<exists>res. calculate_circuit_parameters s = Inr res"
    by (simp add: calculate_circuit_parameters_def)
qed (rule calculate_with_defaults)

text \<open>A Load and an AC Source with no parameter at all, and a catalog Battery.\<close>

theorem analysis_total_when_guarded_witness:
  "numeric_params (place 1 ''Load'' Map.empty)
   \<and> nonzero_internal_resistance (place 2 ''AC Source'' Map.empty)
   \<and> numeric_params (place 3 ''Battery'' (battery_params 9 0.1))
   \<and> nonzero_internal_resistance (place 3 ''Battery'' (battery_params 9 0.1))
   \<and> squares_fit (place 3 ''Battery'' (battery_params 9 0.1))
   \<and> (\<exists>res. calculate_circuit_parameters
               (circuit [place 1 ''Load'' Map.empty, place 2 ''AC Source'' Map.empty,
                         place 3 ''Battery'' (battery_params 9 0.1)]) = Inr res)"
proof -
  let ?cs = "[place 1 ''Load'' Map.empty, place 2 ''AC Source'' Map.empty,
              place 3 ''Battery'' (battery_params 9 0.1)]"
  have n: "numeric_params (place 1 ''Load'' Map.empty)"
    "numeric_params (place 2 ''AC Source'' Map.empty)"
    "numeric_params (place 3 ''Battery'' (battery_params 9 0.1))"
    by (simp_all add: numeric_params_def analysis_keys_def example_defs)
  have z: "nonzero_internal_resistance (place 1 ''Load'' Map.empty)"
    "nonzero_internal_resistance (place 2 ''AC Source'' Map.empty)"
    "nonzero_internal_resistance (place 3 ''Battery'' (battery_params 9 0.1))"
    by (simp_all add: nonzero_internal_resistance_def example_defs)
  have f: "squares_fit (place 1 ''Load'' Map.empty)"
    "squares_fit (place 2 ''AC Source'' Map.empty)"
    "squares_fit (place 3 ''Battery'' (battery_params 9 0.1))"
    using small_fits [of 0] small_fits [of 9]
    by (simp_all add: squares_fit_def example_defs get_def py_or_def)
  have "\<forall>c \<in> set (circuit_components (circuit ?cs)).
          numeric_params c \<and> nonzero_internal_resistance c \<and> squares_fit c"
    using n z f by (simp add: circuit_def)
  from analysis_total_when_guarded [OF this] n z f show ?thesis by blast
qed

text \<open>
  The claim as written includes a source whose \<^verbatim>\<open>internal_resistance\<close> is 0, admits any
  number as a parameter, and says that every missing parameter is read as 0. The division
  of line 355 raises on the first; \<^verbatim>\<open>voltage**2\<close> raises for a voltage of 1e200; and a
  Battery with no \<^verbatim>\<open>internal_resistance\<close> has \<^verbatim>\<open>max_power = voltage^2 / 1\<close>.
\<close>

theorem analysis_raises_on_zero_internal_resistance:
  "calculate_circuit_parameters (circuit [place 1 ''Battery'' (battery_params 9 0)]) =
     Inl ZeroDivisionError
   \<and> calculate_circuit_parameters
       (circuit [place 1 ''AC Source''
                   ((ac_source_params 120)(''internal_resistance'' \<mapsto> Num 0))]) =
     Inl ZeroDivisionError
   \<and> calculate_circuit_parameters
       (circuit [place 1 ''Battery'' (battery_params (10 ^ 200) 0.1)]) =
     Inl OverflowError
   \<and> calculate_circuit_parameters (circuit [place 1 ''Battery'' [''voltage'' \<mapsto> Num 9]]) =
     Inr \<lparr>total_resistance = 0, total_capacitance = 0, total_inductance = 0,
          voltage_sources = [9], power_consumption = 0,
          component_analysis =
            [\<lparr>ca_id = 1, ca_type = ''Battery'', parameters = [''voltage'' \<mapsto> Num 9],
              calculated = Some [(''max_power'', Fin 81)]\<rparr>],
          circuit_current = None, total_power = None\<rparr>"
  by (simp add: eval_defs square_large power2_eq_square)

subsection \<open>C2: circuit current and total power\<close>

text \<open>
  Claim C2. Whenever the analysis returns a result, the result has the fields
  \<^verbatim>\<open>circuit_current\<close> and \<^verbatim>\<open>total_power\<close> if and only if \<^verbatim>\<open>voltage_sources\<close> is not empty
  and \<^verbatim>\<open>total_resistance > 0\<close>; then \<^verbatim>\<open>circuit_current\<close> is the sum of the voltage sources
  divided by the total resistance and \<^verbatim>\<open>total_power\<close> is that sum times the current. For
  one Resistor of 2000 and one Battery of 9 V with internal resistance 0.1 the total
  resistance is 2000, the voltage sources are [9], the current is 0.0045, the total power
  0.0405 and the voltage drop calculated for the Resistor is 2.
\<close>

theorem overall_current_and_power:
  "(\<forall>s res. calculate_circuit_parameters s = Inr res \<longrightarrow>
      (circuit_current res \<noteq> None \<longleftrightarrow> voltage_sources res \<noteq> [] \<and> total_resistance res > 0)
    \<and> (total_power res \<noteq> None \<longleftrightarrow> voltage_sources res \<noteq> [] \<and> total_resistance res > 0)
    \<and> (voltage_sources res \<noteq> [] \<and> total_resistance res > 0 \<longrightarrow>
         circuit_current res = Some (sum_list (voltage_sources res) / total_resistance res)
       \<and> total_power res =
           Some (sum_list (voltage_sources res) *
                 (sum_list (voltage_sources res) / total_resistance res))))
   \<and> calculate_circuit_parameters
       (circuit [place 1 ''Resistor'' (resistor_params 2000),
                 place 2 ''Battery'' (battery_params 9 0.1)]) =
     Inr \<lparr>total_resistance = 2000, total_capacitance = 0, total_inductance = 0,
          voltage_sources = [9], power_consumption = 0,
          component_analysis =
            [\<lparr>ca_id = 1, ca_type = ''Resistor'', parameters = resistor_params 2000,
              calculated = Some [(''power_dissipated'', Fin 0.002), (''voltage_drop'', Fin 2)]\<rparr>,
             \<lparr>ca_id = 2, ca_type = ''Battery'', parameters = battery_params 9 0.1,
              calculated = Some [(''max_power'', Fin 810)]\<rparr>],
          circuit_current = Some 0.0045, total_power = Some 0.0405\<rparr>"
proof (intro conjI allI impI)
  fix s res
  assume "calculate_circuit_parameters s = Inr res"
  then obtain r where r: "analyze_components (circuit_components s) init_results = Inr r"
    and res: "res = overall r"
    by (rule calculate_Inr)
  from analyze_components_frame [OF r]
  have none: "circuit_current r = None" "total_power r = None"
    by (simp_all add: init_results_def)
  show "circuit_current res \<noteq> None \<longleftrightarrow> voltage_sources res \<noteq> [] \<and> total_resistance res > 0"
    using none by (simp add: res overall_def Let_def)
  show "total_power res \<noteq> None \<longleftrightarrow> voltage_sources res \<noteq> [] \<and> total_resistance res > 0"
    using none by (simp add: res overall_def Let_def)
  assume "voltage_sources res \<noteq> [] \<and> total_resistance res > 0"
  then show "circuit_current res = Some (sum_list (voltage_sources res) / total_resistance res)"
    and "total_power res =
           Some (sum_list (voltage_sources res) *
                 (sum_list (voltage_sources res) / total_resistance res))"
    by (simp_all add: res overall_def Let_def split: if_splits)
qed (rule resistor_battery_result)

theorem overall_current_and_power_witness:
  "\<exists>res. calculate_circuit_parameters
            (circuit [place 1 ''Resistor'' (resistor_params 2000),
                      place 2 ''AC Source'' (ac_source_params 120)]) = Inr res
     \<and> voltage_sources res = [120] \<and> total_resistance res = 2000
     \<and> circuit_current res = Some 0.06 \<and> total_power res = Some 7.2"
proof -
  let ?s = "circuit [place 1 ''Resistor'' (resistor_params 2000),
                     place 2 ''AC Source'' (ac_source_params 120)]"
  obtain res where res: "calculate_circuit_parameters ?s = Inr res"
    and vs: "voltage_sources res = [120]" and tr: "total_resistance res = 2000"
    by (simp add: eval_defs)
  from overall_current_and_power res
  have "voltage_sources res \<noteq> [] \<and> total_resistance res > 0 \<longrightarrow>
         circuit_current res = Some (sum_list (voltage_sources res) / total_resistance res)
       \<and> total_power res =
           Some (sum_list (voltage_sources res) *
                 (sum_list (voltage_sources res) / total_resistance res))"
    by blast
  with res vs tr show ?thesis by simp
qed

subsection \<open>C3: connections\<close>

text \<open>
  For two labels that parse, the handler does what the claim says: it refuses a
  connection of a component to itself, refuses an ordered pair that is stored, and
  appends any other pair; \<open>(b, a)\<close> is another pair than \<open>(a, b)\<close>.
\<close>

lemma connect_by_labels:
  assumes "2 \<le> length (circuit_components s)"
    and "CHR ''('' \<notin> set (comp_type c1)" and "CHR ''('' \<notin> set (comp_type c2)"
  shows "connect_components (option_label c1) (option_label c2) s =
    Inr (if comp_id c1 = comp_id c2 then (SelfConnection, s)
         else if \<lparr>from_comp = comp_id c1, to_comp = comp_id c2\<rparr> \<in> set (connections s)
           then (ConnectionExists, s)
         else (ConnectionCreated,
               s\<lparr>connections := connections s @
                    [\<lparr>from_comp = comp_id c1, to_comp = comp_id c2\<rparr>]\<rparr>))"
  using assms by (simp add: connect_components_def parse_id_option_label Let_def)

lemma connect_transistor:
  assumes "2 \<le> length (circuit_components s)"
    and "comp_type c1 = ''Transistor (NPN)''
         \<or> CHR ''('' \<notin> set (comp_type c1) \<and> comp_type c2 = ''Transistor (NPN)''"
  shows "connect_components (option_label c1) (option_label c2) s = Inl ValueError"
  using assms
  by (auto simp: connect_components_def parse_id_option_label parse_id_transistor_label)

text \<open>
  Claim C3 says that connecting \<open>a\<close> to \<open>b\<close> is refused as a self-connection if and only
  if \<open>a = b\<close>, refused as a duplicate if and only if the ordered pair is stored, and
  succeeds otherwise. The handler of lines 420 to 432 does none of the three when a
  selected component is a Transistor (NPN): line 421 or 422 raises \<^verbatim>\<open>ValueError\<close>. In a
  circuit of a Resistor 1 and a Transistor 2, connecting the Transistor to itself, the
  Transistor to the Resistor or the Resistor to the Transistor raises, while connecting
  the Resistor to itself is refused as the claim says.
\<close>

theorem connect_transistor_raises:
  "comp_options (circuit [place 1 ''Resistor'' (resistor_params 1000),
                          place 2 ''Transistor (NPN)'' transistor_params]) =
     [''Resistor (1)'', ''Transistor (NPN) (2)'']
   \<and> connect_components ''Transistor (NPN) (2)'' ''Transistor (NPN) (2)''
       (circuit [place 1 ''Resistor'' (resistor_params 1000),
                 place 2 ''Transistor (NPN)'' transistor_params]) = Inl ValueError
   \<and> connect_components ''Transistor (NPN) (2)'' ''Resistor (1)''
       (circuit [place 1 ''Resistor'' (resistor_params 1000),
                 place 2 ''Transistor (NPN)'' transistor_params]) = Inl ValueError
   \<and> connect_components ''Resistor (1)'' ''Transistor (NPN) (2)''
       (circuit [place 1 ''Resistor'' (resistor_params 1000),
                 place 2 ''Transistor (NPN)'' transistor_params]) = Inl ValueError
   \<and> connect_components ''Resistor (1)'' ''Resistor (1)''
       (circuit [place 1 ''Resistor'' (resistor_params 1000),
                 place 2 ''Transistor (NPN)'' transistor_params]) =
     Inr (SelfConnection,
          circuit [place 1 ''Resistor'' (resistor_params 1000),
                   place 2 ''Transistor (NPN)'' transistor_params])"
proof -
  let ?s = "circuit [place 1 ''Resistor'' (resistor_params 1000),
                     place 2 ''Transistor (NPN)'' transistor_params]"
  have two: "2 \<le> length (circuit_components ?s)"
    by (simp add: circuit_def)
  have r: "parse_id ''Resistor (1)'' = Inr 1"
    by (simp add: label_eval)
  have t: "parse_id ''Transistor (NPN) (2)'' = Inl ValueError"
    by (simp add: label_eval)
  have o: "comp_options ?s = [''Resistor (1)'', ''Transistor (NPN) (2)'']"
    by (simp add: label_eval circuit_def place_def)
  from two r t o show ?thesis
    by (simp add: connect_components_def)
qed

subsection \<open>C4: voltage sources\<close>

text \<open>
  Claim C4, as the code has it. Whenever the analysis returns a result,
  \<^verbatim>\<open>voltage_sources\<close> lists, in the order of the circuit, for each Battery and each AC
  Source alike its \<^verbatim>\<open>voltage\<close> parameter when that is present and not zero, and its
  \<^verbatim>\<open>voltage_rms\<close> parameter otherwise, 0 when missing (line 352 does not look at the
  type). That is the \<^verbatim>\<open>voltage\<close> parameter of each Battery and the \<^verbatim>\<open>voltage_rms\<close>
  parameter of each AC Source in a circuit where no Battery has a \<^verbatim>\<open>voltage_rms\<close>
  parameter and no AC Source a \<^verbatim>\<open>voltage\<close> parameter. The \<^verbatim>\<open>max_power\<close> calculated for a
  source is the square of the listed voltage divided by its \<^verbatim>\<open>internal_resistance\<close>
  parameter, with 1 in its place only when the parameter is absent.
\<close>

theorem source_voltage_and_max_power:
  assumes res: "calculate_circuit_parameters s = Inr res"
  shows "voltage_sources res =
           map source_voltage
             (filter (\<lambda>c. comp_type c \<in> {''Battery'', ''AC Source''}) (circuit_components s))
       \<and> ((\<forall>c \<in> set (circuit_components s).
              (comp_type c = ''Battery'' \<longrightarrow> params c ''voltage_rms'' = None)
            \<and> (comp_type c = ''AC Source'' \<longrightarrow> params c ''voltage'' = None)) \<longrightarrow>
           voltage_sources res =
             map effective_voltage
               (filter (\<lambda>c. comp_type c \<in> {''Battery'', ''AC Source''})
                  (circuit_components s)))
       \<and> (\<forall>i < length (circuit_components s).
            comp_type (circuit_components s ! i) \<in> {''Battery'', ''AC Source''} \<longrightarrow>
            calculated (component_analysis res ! i) =
              Some [(''max_power'',
                     Fin ((source_voltage (circuit_components s ! i))\<^sup>2 /
                          (case params (circuit_components s ! i) ''internal_resistance'' of
                             None \<Rightarrow> 1 | Some v \<Rightarrow> num_of v)))])"
proof (intro conjI allI impI)
  from res obtain r where r: "analyze_components (circuit_components s) init_results = Inr r"
    and eq: "res = overall r"
    by (rule calculate_Inr)
  have "voltage_sources r = voltage_sources init_results @
      concat (map (\<lambda>c. if comp_type c \<in> {''Battery'', ''AC Source''}
                        then [source_voltage c] else [])
                 (circuit_components s))"
    using r by (rule analyze_components_concat [rotated]) (rule step_voltage_sources)
  also have "concat (map (\<lambda>c. if comp_type c \<in> {''Battery'', ''AC Source''}
                        then [source_voltage c] else []) cs) =
      map source_voltage (filter (\<lambda>c. comp_type c \<in> {''Battery'', ''AC Source''}) cs)" for cs
    by (induction cs) auto
  finally show general: "voltage_sources res =
           map source_voltage
             (filter (\<lambda>c. comp_type c \<in> {''Battery'', ''AC Source''}) (circuit_components s))"
    by (simp add: eq overall_fields init_results_def)
  assume keys: "\<forall>c \<in> set (circuit_components s).
              (comp_type c = ''Battery'' \<longrightarrow> params c ''voltage_rms'' = None)
            \<and> (comp_type c = ''AC Source'' \<longrightarrow> params c ''voltage'' = None)"
  have "map source_voltage
             (filter (\<lambda>c. comp_type c \<in> {''Battery'', ''AC Source''}) (circuit_components s)) =
        map effective_voltage
             (filter (\<lambda>c. comp_type c \<in> {''Battery'', ''AC Source''}) (circuit_components s))"
    using keys by (intro map_cong refl source_voltage_by_type) auto
  with general show "voltage_sources res =
             map effective_voltage
               (filter (\<lambda>c. comp_type c \<in> {''Battery'', ''AC Source''})
                  (circuit_components s))"
    by simp
next
  fix i
  assume i: "i < length (circuit_components s)"
    and src: "comp_type (circuit_components s ! i) \<in> {''Battery'', ''AC Source''}"
  from res i obtain ra rb calc where
    b: "analyze_branch (circuit_components s ! i) ra = Inr (rb, calc)" and
    e: "component_analysis res ! i =
       \<lparr>ca_id = comp_id (circuit_components s ! i), ca_type = comp_type (circuit_components s ! i),
        parameters = params (circuit_components s ! i), calculated = calc\<rparr>"
    by (rule entry_okD)
  from b src e
  show "calculated (component_analysis res ! i) =
              Some [(''max_power'',
                     Fin ((source_voltage (circuit_components s ! i))\<^sup>2 /
                          (case params (circuit_components s ! i) ''internal_resistance'' of
                             None \<Rightarrow> 1 | Some v \<Rightarrow> num_of v)))]"
    by (auto simp: analyze_branch_def analyze_source_def Let_def source_voltage_def
          get_def square_Inr
          split: pval.splits if_splits option.splits sum.splits)
qed

theorem source_voltage_and_max_power_witness:
  "\<exists>res. calculate_circuit_parameters
            (circuit [place 1 ''Battery'' (battery_params 9 0.1),
                      place 2 ''Resistor'' (resistor_params 1000),
                      place 3 ''AC Source'' (ac_source_params 120)]) = Inr res
     \<and> voltage_sources res = [9, 120]
     \<and> calculated (component_analysis res ! 0) = Some [(''max_power'', Fin 810)]
     \<and> calculated (component_analysis res ! 2) = Some [(''max_power'', Fin 14400)]"
proof -
  let ?s = "circuit [place 1 ''Battery'' (battery_params 9 0.1),
                     place 2 ''Resistor'' (resistor_params 1000),
                     place 3 ''AC Source'' (ac_source_params 120)]"
  obtain res where res: "calculate_circuit_parameters ?s = Inr res"
    by (simp add: eval_defs)
  have keys: "\<forall>c \<in> set (circuit_components ?s).
                 (comp_type c = ''Battery'' \<longrightarrow> params c ''voltage_rms'' = None)
               \<and> (comp_type c = ''AC Source'' \<longrightarrow> params c ''voltage'' = None)"
    by (simp add: example_defs)
  from source_voltage_and_max_power [OF res] keys
  have "voltage_sources res =
             map effective_voltage
               (filter (\<lambda>c. comp_type c \<in> {''Battery'', ''AC Source''})
                  (circuit_components ?s))"
    and "\<forall>i < length (circuit_components ?s).
            comp_type (circuit_components ?s ! i) \<in> {''Battery'', ''AC Source''} \<longrightarrow>
            calculated (component_analysis res ! i) =
              Some [(''max_power'',
                     Fin ((source_voltage (circuit_components ?s ! i))\<^sup>2 /
                          (case params (circuit_components ?s ! i) ''internal_resistance'' of
                             None \<Rightarrow> 1 | Some v \<Rightarrow> num_of v)))]"
    by blast+
  then have "voltage_sources res = [9, 120]"
    and "calculated (component_analysis res ! 0) = Some [(''max_power'', Fin 810)]"
    and "calculated (component_analysis res ! 2) = Some [(''max_power'', Fin 14400)]"
    by (simp_all add: example_defs effective_voltage_def source_voltage_def py_or_def get_def
          power2_eq_square)
  with res show ?thesis by blast
qed

text \<open>
  The claim as written says that the voltage listed for every Battery is its \<^verbatim>\<open>voltage\<close>
  parameter. A Battery with \<^verbatim>\<open>voltage\<close> 0 and a \<^verbatim>\<open>voltage_rms\<close> of 5 is listed with 5, and
  its \<^verbatim>\<open>max_power\<close> is 25 / 0.1.
\<close>

theorem source_voltage_falls_back:
  "calculate_circuit_parameters
     (circuit [place 1 ''Battery'' ((battery_params 0 0.1)(''voltage_rms'' \<mapsto> Num 5))]) =
   Inr \<lparr>total_resistance = 0, total_capacitance = 0, total_inductance = 0,
        voltage_sources = [5], power_consumption = 0,
        component_analysis =
          [\<lparr>ca_id = 1, ca_type = ''Battery'',
            parameters = (battery_params 0 0.1)(''voltage_rms'' \<mapsto> Num 5),
            calculated = Some [(''max_power'', Fin 250)]\<rparr>],
        circuit_current = None, total_power = None\<rparr>
   \<and> get ((battery_params 0 0.1)(''voltage_rms'' \<mapsto> Num 5)) ''voltage'' (Num 0) = Num 0"
  by (simp add: eval_defs power2_eq_square)

subsection \<open>C5: loads\<close>

text \<open>
  Claim C5, as the code has it. Whenever the analysis returns a result,
  \<^verbatim>\<open>power_consumption\<close> is the sum of the \<^verbatim>\<open>power\<close> parameters of the Loads, whatever their
  voltage; the entry of a Load has a \<^verbatim>\<open>calculated\<close> dict if and only if its \<^verbatim>\<open>voltage\<close>
  parameter is positive, and then the dict holds \<^verbatim>\<open>current = power / voltage\<close> and a
  \<^verbatim>\<open>resistance\<close> that is \<^verbatim>\<open>voltage / current\<close> when that current is positive and
  \<^verbatim>\<open>+infinity\<close> when it is not. Every power that is zero or negative gives the infinite
  resistance: the number input of the form has no lower bound, so the case is not one
  of a zero power only.
\<close>

theorem load_analysis:
  assumes "calculate_circuit_parameters s = Inr res"
  shows "power_consumption res =
           (\<Sum>c\<leftarrow>filter (\<lambda>c. comp_type c = ''Load'') (circuit_components s).
               num_of (get (params c) ''power'' (Num 0)))
       \<and> (\<forall>i < length (circuit_components s).
            comp_type (circuit_components s ! i) = ''Load'' \<longrightarrow>
            (let pwr = num_of (get (params (circuit_components s ! i)) ''power'' (Num 0));
                 voltage = num_of (get (params (circuit_components s ! i)) ''voltage'' (Num 0))
             in (calculated (component_analysis res ! i) \<noteq> None \<longleftrightarrow> voltage > 0)
              \<and> (voltage > 0 \<longrightarrow>
                   (\<exists>current.
                      calculated (component_analysis res ! i) =
                        Some [(''current'', Fin current),
                              (''resistance'',
                                 if current > 0 then Fin (voltage / current) else PInf)]
                    \<and> current = pwr / voltage))
              \<and> (voltage > 0 \<and> pwr \<le> 0 \<longrightarrow>
                   calculated (component_analysis res ! i) =
                     Some [(''current'', Fin (pwr / voltage)), (''resistance'', PInf)])))"
proof (intro conjI allI impI)
  from assms obtain r where r: "analyze_components (circuit_components s) init_results = Inr r"
    and res: "res = overall r"
    by (rule calculate_Inr)
  have "power_consumption r = power_consumption init_results +
      sum_list (map (\<lambda>c. if comp_type c = ''Load''
                          then num_of (get (params c) ''power'' (Num 0)) else 0)
                 (circuit_components s))"
    using r by (rule analyze_components_sum [rotated]) (rule step_power_consumption)
  then show "power_consumption res =
           (\<Sum>c\<leftarrow>filter (\<lambda>c. comp_type c = ''Load'') (circuit_components s).
               num_of (get (params c) ''power'' (Num 0)))"
    by (simp add: res overall_fields init_results_def sum_list_map_filter')
next
  fix i
  assume i: "i < length (circuit_components s)"
    and load: "comp_type (circuit_components s ! i) = ''Load''"
  from assms i obtain ra rb calc where
    b: "analyze_branch (circuit_components s ! i) ra = Inr (rb, calc)" and
    e: "component_analysis res ! i =
       \<lparr>ca_id = comp_id (circuit_components s ! i), ca_type = comp_type (circuit_components s ! i),
        parameters = params (circuit_components s ! i), calculated = calc\<rparr>"
    by (rule entry_okD)
  from b load e
  show "let pwr = num_of (get (params (circuit_components s ! i)) ''power'' (Num 0));
            voltage = num_of (get (params (circuit_components s ! i)) ''voltage'' (Num 0))
        in (calculated (component_analysis res ! i) \<noteq> None \<longleftrightarrow> voltage > 0)
              \<and> (voltage > 0 \<longrightarrow>
                   (\<exists>current.
                      calculated (component_analysis res ! i) =
                        Some [(''current'', Fin current),
                              (''resistance'',
                                 if current > 0 then Fin (voltage / current) else PInf)]
                    \<and> current = pwr / voltage))
              \<and> (voltage > 0 \<and> pwr \<le> 0 \<longrightarrow>
                   calculated (component_analysis res ! i) =
                     Some [(''current'', Fin (pwr / voltage)), (''resistance'', PInf)])"
    by (auto simp: analyze_branch_def analyze_load_def Let_def divide_le_0_iff
          zero_less_divide_iff split: pval.splits if_splits)
qed

text \<open>The scenario of the claim, power 100 at voltage 0, and a Load of power 0 at 12 V.\<close>

theorem load_analysis_witness:
  "\<exists>res. calculate_circuit_parameters
            (circuit [place 1 ''Load'' (load_params 100 0),
                      place 2 ''Load'' (load_params 0 12)]) = Inr res
     \<and> power_consumption res = 100
     \<and> calculated (component_analysis res ! 0) = None
     \<and> calculated (component_analysis res ! 1) =
          Some [(''current'', Fin 0), (''resistance'', PInf)]"
proof -
  let ?s = "circuit [place 1 ''Load'' (load_params 100 0), place 2 ''Load'' (load_params 0 12)]"
  obtain res where res: "calculate_circuit_parameters ?s = Inr res"
    by (simp add: eval_defs)
  note la = load_analysis [OF res]
  have "power_consumption res = 100"
    using la [THEN conjunct1] by (simp add: example_defs get_def)
  moreover have "calculated (component_analysis res ! 0) = None"
    using la [THEN conjunct2, rule_format, of 0] by (simp add: example_defs get_def Let_def)
  moreover have "calculated (component_analysis res ! 1) =
          Some [(''current'', Fin 0), (''resistance'', PInf)]"
    using la [THEN conjunct2, rule_format, of 1] by (simp add: example_defs get_def Let_def)
  ultimately show ?thesis using res by blast
qed

text \<open>
  The claim as written says that \<^verbatim>\<open>current <= 0\<close> is reachable only when \<^verbatim>\<open>power == 0\<close>.
  A Load of power -100 at 12 V has a negative current and the resistance \<^verbatim>\<open>+infinity\<close>.
\<close>

theorem load_negative_power_infinite_resistance:
  "calculate_circuit_parameters (circuit [place 1 ''Load'' (load_params (- 100) 12)]) =
     Inr \<lparr>total_resistance = 0, total_capacitance = 0, total_inductance = 0,
          voltage_sources = [], power_consumption = - 100,
          component_analysis =
            [\<lparr>ca_id = 1, ca_type = ''Load'', parameters = load_params (- 100) 12,
              calculated = Some [(''current'', Fin (- 25 / 3)), (''resistance'', PInf)]\<rparr>],
          circuit_current = None, total_power = None\<rparr>
   \<and> get (load_params (- 100) 12) ''power'' (Num 0) = Num (- 100)
   \<and> (- 100 :: real) \<noteq> 0"
  by (simp add: eval_defs)

subsection \<open>C6: component ids\<close>

lemma add_component_ok:
  "COMPONENTS t = Some dflt \<Longrightarrow>
   add_component t px py s =
     (None, s\<lparr>component_counter := component_counter s + 1,
              circuit_components := circuit_components s @
                [\<lparr>comp_id = component_counter s + 1, comp_type = t, pos_x = px, pos_y = py,
                  params = dflt\<rparr>]\<rparr>)"
  by (simp add: add_component_def Let_def)

lemma add_components_ids:
  "\<forall>r \<in> set reqs. fst r \<in> dom COMPONENTS \<Longrightarrow>
     map comp_id (circuit_components (add_components reqs s)) =
       map comp_id (circuit_components s) @
       [component_counter s + 1 .. component_counter s + int (length reqs)]
   \<and> map comp_type (circuit_components (add_components reqs s)) =
       map comp_type (circuit_components s) @ map fst reqs
   \<and> component_counter (add_components reqs s) = component_counter s + int (length reqs)"
proof (induction reqs arbitrary: s)
  case Nil
  then show ?case by simp
next
  case (Cons r reqs)
  obtain t px py where r: "r = (t, px, py)" by (cases r)
  with Cons.prems obtain dflt where d: "COMPONENTS t = Some dflt" by auto
  let ?next = "snd (add_component t px py s)"
  have nxt: "component_counter ?next = component_counter s + 1"
    "map comp_id (circuit_components ?next) =
       map comp_id (circuit_components s) @ [component_counter s + 1]"
    "map comp_type (circuit_components ?next) = map comp_type (circuit_components s) @ [t]"
    by (simp_all add: add_component_ok [OF d])
  have "\<forall>r \<in> set reqs. fst r \<in> dom COMPONENTS" using Cons.prems by simp
  from Cons.IH [OF this, of ?next]
  show ?case
    by (simp add: r nxt upto_rec1 [of "component_counter s + 1"] add.assoc)
qed

text \<open>
  Claim C6. Adding N components of catalog types to the empty session, or to any session
  just cleared, gives them the ids 1 to N in the order added, whatever their types:
  each add increments the counter first and uses the new value as the id. Clearing
  empties the components and the connections and sets the counter to 0.
\<close>

theorem component_ids_sequential:
  assumes "\<forall>r \<in> set reqs. fst r \<in> dom COMPONENTS"
  shows "map comp_id (circuit_components (add_components reqs init_session)) =
           [1 .. int (length reqs)]
       \<and> map comp_type (circuit_components (add_components reqs init_session)) = map fst reqs
       \<and> circuit_components (clear s) = [] \<and> connections (clear s) = []
       \<and> component_counter (clear s) = 0
       \<and> map comp_id (circuit_components (add_components reqs (clear s))) =
           [1 .. int (length reqs)]
       \<and> map comp_type (circuit_components (add_components reqs (clear s))) = map fst reqs
       \<and> (\<forall>t px py dflt. COMPONENTS t = Some dflt \<longrightarrow>
            component_counter (snd (add_component t px py s)) = component_counter s + 1
          \<and> circuit_components (snd (add_component t px py s)) =
              circuit_components s @
                [\<lparr>comp_id = component_counter s + 1, comp_type = t, pos_x = px, pos_y = py,
                  params = dflt\<rparr>])"
  using add_components_ids [OF assms, of init_session] add_components_ids [OF assms, of "clear s"]
  by (simp add: init_session_def clear_def add_component_ok)

text \<open>Three components, a clear, and two more.\<close>

theorem component_ids_sequential_witness:
  "map comp_id (circuit_components
      (add_components [(''Resistor'', 2, 2), (''Battery'', 3, 2), (''Transistor (NPN)'', 4, 1)]
         init_session)) = [1, 2, 3]
   \<and> map comp_id (circuit_components
      (add_components [(''Load'', 2, 2), (''Ground'', 3, 2)]
         (clear (add_components
            [(''Resistor'', 2, 2), (''Battery'', 3, 2), (''Transistor (NPN)'', 4, 1)]
            init_session)))) = [1, 2]"
proof -
  have a: "\<forall>r \<in> set [(''Resistor'', 2 :: real, 2 :: real), (''Battery'', 3, 2),
                       (''Transistor (NPN)'', 4, 1)]. fst r \<in> dom COMPONENTS"
    by (simp add: COMPONENTS_def)
  have b: "\<forall>r \<in> set [(''Load'', 2 :: real, 2 :: real), (''Ground'', 3, 2)].
             fst r \<in> dom COMPONENTS"
    by (simp add: COMPONENTS_def)
  have u: "[1 .. int (length [(''Resistor'', 2 :: real, 2 :: real), (''Battery'', 3, 2),
                       (''Transistor (NPN)'', 4, 1)])] = [1, 2, 3]"
    "[1 .. int (length [(''Load'', 2 :: real, 2 :: real), (''Ground'', 3, 2)])] = [1, 2]"
    by (simp_all add: upto_rec1)
  from component_ids_sequential [OF a] component_ids_sequential [OF b] u
  show ?thesis by metis
qed

subsection \<open>C7: capacitors\<close>

lemma arctan_between_partial_sums:
  fixes z :: real
  assumes z: "0 \<le> z" "z \<le> 1"
  shows "(\<Sum>k<2 * n. (- 1) ^ k * odd_term z k) \<le> arctan z
       \<and> arctan z \<le> (\<Sum>k<2 * n + 1. (- 1) ^ k * odd_term z k)"
proof -
  have lim: "odd_term z \<longlonglongrightarrow> 0"
    using zeroseq_arctan_series [of z] z unfolding odd_term_def by simp
  have nonneg: "0 \<le> odd_term z k" for k
    using z by (simp add: odd_term_def)
  have decr: "odd_term z (Suc k) \<le> odd_term z k" for k
  proof -
    have "z ^ (Suc k * 2 + 1) \<le> z ^ (k * 2 + 1)"
      using z by (intro power_decreasing) auto
    moreover have "1 / real (Suc k * 2 + 1) \<le> 1 / real (k * 2 + 1)"
      by (simp add: field_simps)
    ultimately show ?thesis
      unfolding odd_term_def using z by (intro mult_mono) auto
  qed
  have series: "arctan z = (\<Sum>k. (- 1) ^ k * odd_term z k)"
    using arctan_series [of z] z unfolding odd_term_def by simp
  from summable_Leibniz'(2) [OF lim nonneg decr, of n]
       summable_Leibniz'(4) [OF lim nonneg decr, of n]
  show ?thesis unfolding series by simp
qed

lemma pi_enclosure: "3.14159 < pi \<and> pi < 3.1416"
proof -
  have m: "pi = 16 * arctan (1 / 5) - 4 * arctan (1 / 239)"
    using machin by simp
  have a5: "(\<Sum>k<4. (- 1) ^ k * odd_term (1 / 5) k) \<le> arctan (1 / 5)"
           "arctan (1 / 5) \<le> (\<Sum>k<5. (- 1) ^ k * odd_term (1 / 5) k)"
    using arctan_between_partial_sums [of "1 / 5" 2] by simp_all
  have a239: "(\<Sum>k<2. (- 1) ^ k * odd_term (1 / 239) k) \<le> arctan (1 / 239)"
           "arctan (1 / 239) \<le> (\<Sum>k<3. (- 1) ^ k * odd_term (1 / 239) k)"
    using arctan_between_partial_sums [of "1 / 239" 1] by simp_all
  have lo: "3.14159 < 16 * (\<Sum>k<4. (- 1) ^ k * odd_term (1 / 5) k)
                      - 4 * (\<Sum>k<3. (- 1) ^ k * odd_term (1 / 239) k)"
    by (simp add: odd_term_def eval_nat_numeral)
  have hi: "16 * (\<Sum>k<5. (- 1) ^ k * odd_term (1 / 5) k)
                      - 4 * (\<Sum>k<2. (- 1) ^ k * odd_term (1 / 239) k) < 3.1416"
    by (simp add: odd_term_def eval_nat_numeral)
  from a5 a239 lo hi show ?thesis unfolding m by linarith
qed

lemma reactance_value:
  "\<bar>1 / (2 * pi * 60 * (100 / 10 ^ 6)) - 26.526\<bar> < (0.0005 :: real)"
proof -
  have e: "1 / (2 * pi * 60 * (100 / 10 ^ 6)) = 250 / (3 * pi)"
    by (simp add: field_simps)
  have p: "3.14159 < pi" "pi < 3.1416" using pi_enclosure by simp_all
  define q where "q = 250 / (3 * pi)"
  have "q < 26.5265"
    unfolding q_def using p by (simp add: field_simps)
  moreover have "26.5255 < q"
    unfolding q_def using p by (simp add: field_simps)
  ultimately have "q - 26.526 < 0.0005 \<and> - (q - 26.526) < 0.0005" by simp
  then have "\<bar>q - 26.526\<bar> < 0.0005" by (simp only: abs_less_iff)
  then show ?thesis unfolding e q_def .
qed

lemma catalog_capacitor_result:
  "calculate_circuit_parameters
     (circuit [place 1 ''Capacitor'' (capacitor_params (100 / 10 ^ 6) 25)]) =
   Inr \<lparr>total_resistance = 0, total_capacitance = 100 / 10 ^ 6, total_inductance = 0,
        voltage_sources = [], power_consumption = 0,
        component_analysis =
          [\<lparr>ca_id = 1, ca_type = ''Capacitor'',
            parameters = capacitor_params (100 / 10 ^ 6) 25,
            calculated = Some [(''energy_stored'', Fin 0.03125),
                               (''reactance_60hz'', Fin (1 / (2 * pi * 60 * (100 / 10 ^ 6))))]\<rparr>],
        circuit_current = None, total_power = None\<rparr>"
  by (simp add: eval_defs power2_eq_square)

lemma capacitor_analysis_general:
  assumes "calculate_circuit_parameters s = Inr res"
  shows "total_capacitance res =
           (\<Sum>c\<leftarrow>filter (\<lambda>c. comp_type c = ''Capacitor''
                              \<and> num_of (get (params c) ''capacitance'' (Num 0)) > 0)
                    (circuit_components s).
               num_of (get (params c) ''capacitance'' (Num 0)))
       \<and> (\<forall>i < length (circuit_components s).
            comp_type (circuit_components s ! i) = ''Capacitor'' \<longrightarrow>
            (let capacitance =
                   num_of (get (params (circuit_components s ! i)) ''capacitance'' (Num 0));
                 voltage_rating =
                   num_of (get (params (circuit_components s ! i)) ''voltage_rating'' (Num 0))
             in calculated (component_analysis res ! i) =
                  Some [(''energy_stored'', Fin (0.5 * capacitance * voltage_rating\<^sup>2)),
                        (''reactance_60hz'',
                           if capacitance > 0 then Fin (1 / (2 * pi * 60 * capacitance))
                           else PInf)]))"
proof (intro conjI allI impI)
  from assms obtain r where r: "analyze_components (circuit_components s) init_results = Inr r"
    and res: "res = overall r"
    by (rule calculate_Inr)
  have "total_capacitance r = total_capacitance init_results +
      sum_list (map (\<lambda>c. if comp_type c = ''Capacitor''
                              \<and> num_of (get (params c) ''capacitance'' (Num 0)) > 0
                          then num_of (get (params c) ''capacitance'' (Num 0)) else 0)
                 (circuit_components s))"
    using r by (rule analyze_components_sum [rotated]) (rule step_total_capacitance)
  then show "total_capacitance res =
           (\<Sum>c\<leftarrow>filter (\<lambda>c. comp_type c = ''Capacitor''
                              \<and> num_of (get (params c) ''capacitance'' (Num 0)) > 0)
                    (circuit_components s).
               num_of (get (params c) ''capacitance'' (Num 0)))"
    by (simp add: res overall_fields init_results_def sum_list_map_filter')
next
  fix i
  assume i: "i < length (circuit_components s)"
    and cap: "comp_type (circuit_components s ! i) = ''Capacitor''"
  from assms i obtain ra rb calc where
    b: "analyze_branch (circuit_components s ! i) ra = Inr (rb, calc)" and
    e: "component_analysis res ! i =
       \<lparr>ca_id = comp_id (circuit_components s ! i), ca_type = comp_type (circuit_components s ! i),
        parameters = params (circuit_components s ! i), calculated = calc\<rparr>"
    by (rule entry_okD)
  from b cap e
  show "let capacitance =
                   num_of (get (params (circuit_components s ! i)) ''capacitance'' (Num 0));
                 voltage_rating =
                   num_of (get (params (circuit_components s ! i)) ''voltage_rating'' (Num 0))
             in calculated (component_analysis res ! i) =
                  Some [(''energy_stored'', Fin (0.5 * capacitance * voltage_rating\<^sup>2)),
                        (''reactance_60hz'',
                           if capacitance > 0 then Fin (1 / (2 * pi * 60 * capacitance))
                           else PInf)]"
    by (auto simp: analyze_branch_def analyze_capacitor_def Let_def square_Inr
          split: pval.splits if_splits sum.splits)
qed

text \<open>
  Claim C7. Whenever the analysis returns a result, \<^verbatim>\<open>total_capacitance\<close> is the sum of the
  capacitances of the Capacitors whose capacitance is positive, and the entry of every
  Capacitor has \<^verbatim>\<open>energy_stored = 0.5 * capacitance * voltage_rating^2\<close> and
  \<^verbatim>\<open>reactance_60hz = 1 / (2 pi 60 capacitance)\<close> for a positive capacitance,
  \<^verbatim>\<open>+infinity\<close> otherwise. For the catalog's Capacitor (100e-6 F, 25 V) the energy is
  0.03125 and the reactance is 26.526 to three decimals.
\<close>

theorem capacitor_analysis:
  "(\<forall>s res. calculate_circuit_parameters s = Inr res \<longrightarrow>
      total_capacitance res =
               (\<Sum>c\<leftarrow>filter (\<lambda>c. comp_type c = ''Capacitor''
                                  \<and> num_of (get (params c) ''capacitance'' (Num 0)) > 0)
                        (circuit_components s).
                   num_of (get (params c) ''capacitance'' (Num 0)))
           \<and> (\<forall>i < length (circuit_components s).
                comp_type (circuit_components s ! i) = ''Capacitor'' \<longrightarrow>
                (let capacitance =
                       num_of (get (params (circuit_components s ! i)) ''capacitance'' (Num 0));
                     voltage_rating =
                       num_of (get (params (circuit_components s ! i)) ''voltage_rating'' (Num 0))
                 in calculated (component_analysis res ! i) =
                      Some [(''energy_stored'', Fin (0.5 * capacitance * voltage_rating\<^sup>2)),
                            (''reactance_60hz'',
                               if capacitance > 0 then Fin (1 / (2 * pi * 60 * capacitance))
                               else PInf)])))
   \<and> calculate_circuit_parameters
       (circuit [place 1 ''Capacitor'' (capacitor_params (100 / 10 ^ 6) 25)]) =
     Inr \<lparr>total_resistance = 0, total_capacitance = 100 / 10 ^ 6, total_inductance = 0,
          voltage_sources = [], power_consumption = 0,
          component_analysis =
            [\<lparr>ca_id = 1, ca_type = ''Capacitor'',
              parameters = capacitor_params (100 / 10 ^ 6) 25,
              calculated =
                Some [(''energy_stored'', Fin 0.03125),
                      (''reactance_60hz'', Fin (1 / (2 * pi * 60 * (100 / 10 ^ 6))))]\<rparr>],
          circuit_current = None, total_power = None\<rparr>
   \<and> \<bar>1 / (2 * pi * 60 * (100 / 10 ^ 6)) - 26.526\<bar> < (0.0005 :: real)"
  using capacitor_analysis_general catalog_capacitor_result reactance_value
  by (intro conjI allI impI) blast+

text \<open>A Capacitor of capacitance 0: nothing is added, and the reactance is infinite.\<close>

theorem capacitor_analysis_witness:
  "\<exists>res. calculate_circuit_parameters
            (circuit [place 1 ''Capacitor'' (capacitor_params 0 25),
                      place 2 ''Capacitor'' (capacitor_params 2 3)]) = Inr res
     \<and> total_capacitance res = 2
     \<and> calculated (component_analysis res ! 0) =
          Some [(''energy_stored'', Fin 0), (''reactance_60hz'', PInf)]
     \<and> calculated (component_analysis res ! 1) =
          Some [(''energy_stored'', Fin 9), (''reactance_60hz'', Fin (1 / (2 * pi * 60 * 2)))]"
proof -
  let ?s = "circuit [place 1 ''Capacitor'' (capacitor_params 0 25),
                     place 2 ''Capacitor'' (capacitor_params 2 3)]"
  obtain res where res: "calculate_circuit_parameters ?s = Inr res"
    by (simp add: eval_defs)
  from capacitor_analysis res
  have "total_capacitance res =
           (\<Sum>c\<leftarrow>filter (\<lambda>c. comp_type c = ''Capacitor''
                              \<and> num_of (get (params c) ''capacitance'' (Num 0)) > 0)
                    (circuit_components ?s).
               num_of (get (params c) ''capacitance'' (Num 0)))"
    and "\<forall>i < length (circuit_components ?s).
            comp_type (circuit_components ?s ! i) = ''Capacitor'' \<longrightarrow>
            (let capacitance =
                   num_of (get (params (circuit_components ?s ! i)) ''capacitance'' (Num 0));
                 voltage_rating =
                   num_of (get (params (circuit_components ?s ! i)) ''voltage_rating'' (Num 0))
             in calculated (component_analysis res ! i) =
                  Some [(''energy_stored'', Fin (0.5 * capacitance * voltage_rating\<^sup>2)),
                        (''reactance_60hz'',
                           if capacitance > 0 then Fin (1 / (2 * pi * 60 * capacitance))
                           else PInf)])"
    by blast+
  then have "total_capacitance res = 2"
    and "calculated (component_analysis res ! 0) =
          Some [(''energy_stored'', Fin 0), (''reactance_60hz'', PInf)]"
    and "calculated (component_analysis res ! 1) =
          Some [(''energy_stored'', Fin 9), (''reactance_60hz'', Fin (1 / (2 * pi * 60 * 2)))]"
    by (simp_all add: example_defs get_def Let_def power2_eq_square)
  with res show ?thesis by blast
qed

subsection \<open>C8: updating params\<close>

lemma set_params_nth:
  "i < length cs \<Longrightarrow> comp_id (cs ! i) = cid \<Longrightarrow> \<forall>j<i. comp_id (cs ! j) \<noteq> cid \<Longrightarrow>
     set_params cid new_params cs = cs[i := (cs ! i)\<lparr>params := new_params\<rparr>]"
proof (induction cs arbitrary: i)
  case Nil
  then show ?case by simp
next
  case (Cons c cs)
  show ?case
  proof (cases i)
    case 0
    with Cons.prems show ?thesis by simp
  next
    case (Suc k)
    with Cons.prems have "comp_id c \<noteq> cid" by auto
    moreover have "set_params cid new_params cs = cs[k := (cs ! k)\<lparr>params := new_params\<rparr>]"
      using Cons.prems Suc by (intro Cons.IH) auto
    ultimately show ?thesis using Suc by simp
  qed
qed

text \<open>The form keeps the keys: the params it builds have the keys of the old ones.\<close>

lemma dom_form_params: "dom (form_params text_input number_input ps) = dom ps"
  by (auto simp: form_params_def split: option.splits pval.splits)

text \<open>
  For a label that parses, the handler does what the claim says: the params of the
  selected component, and of no other, are replaced as a whole by the params that the
  form built. (No id is ever missing: the label is the label of a placed component.)
\<close>

lemma edit_by_label:
  assumes i: "i < length (circuit_components s)"
    and d: "distinct (map comp_id (circuit_components s))"
    and p: "CHR ''('' \<notin> set (comp_type (circuit_components s ! i))"
    and k: "COMPONENTS (comp_type (circuit_components s ! i)) \<noteq> None"
  shows "edit_component (option_label (circuit_components s ! i)) text_input number_input s =
    Inr (s\<lparr>circuit_components :=
             (circuit_components s)
               [i := (circuit_components s ! i)
                       \<lparr>params := form_params text_input number_input
                                    (params (circuit_components s ! i))\<rparr>]\<rparr>)"
proof -
  let ?c = "circuit_components s ! i"
  from i have ne: "circuit_components s \<noteq> []" by auto
  have first: "\<forall>j<i. comp_id (circuit_components s ! j) \<noteq> comp_id ?c"
  proof (intro allI impI)
    fix j assume "j < i"
    with nth_eq_iff_index_eq [OF d, of j i] i
    show "comp_id (circuit_components s ! j) \<noteq> comp_id ?c" by simp
  qed
  with i have f: "find (\<lambda>c. comp_id c = comp_id ?c) (circuit_components s) = Some ?c"
    by (auto simp: find_Some_iff)
  from ne k show ?thesis
    by (simp add: edit_component_def option_label_nonempty parse_id_option_label [OF p] f
          set_params_nth [OF i refl first])
qed

text \<open>
  Claim C8 says that updating the params of a component replaces them as a whole. The
  handler of lines 474 to 499 does not get that far for a Transistor (NPN): line 475
  raises \<^verbatim>\<open>ValueError\<close> on its label, whatever the form holds, while the same update of a
  Resistor replaces its params.
\<close>

theorem edit_transistor_raises:
  "comp_options (circuit [place 1 ''Transistor (NPN)'' transistor_params]) =
     [''Transistor (NPN) (1)'']
   \<and> edit_component ''Transistor (NPN) (1)'' (\<lambda>param. []) (\<lambda>param. 150)
       (circuit [place 1 ''Transistor (NPN)'' transistor_params]) = Inl ValueError
   \<and> comp_options (circuit [place 1 ''Resistor'' (resistor_params 1000)]) = [''Resistor (1)'']
   \<and> edit_component ''Resistor (1)'' (\<lambda>param. []) (\<lambda>param. 150)
       (circuit [place 1 ''Resistor'' (resistor_params 1000)]) =
     Inr (circuit [place 1 ''Resistor''
                     (form_params (\<lambda>param. []) (\<lambda>param. 150) (resistor_params 1000))])
   \<and> form_params (\<lambda>param. []) (\<lambda>param. 150) (resistor_params 1000) ''resistance'' =
       Some (Num 150)"
proof -
  have t: "parse_id ''Transistor (NPN) (1)'' = Inl ValueError"
    by (simp add: label_eval)
  have r: "parse_id ''Resistor (1)'' = Inr 1"
    by (simp add: label_eval)
  have o: "comp_options (circuit [place 1 ''Transistor (NPN)'' transistor_params]) =
     [''Transistor (NPN) (1)'']"
    "comp_options (circuit [place 1 ''Resistor'' (resistor_params 1000)]) = [''Resistor (1)'']"
    by (simp_all add: label_eval circuit_def place_def)
  have k: "COMPONENTS ''Resistor'' \<noteq> None"
    by (simp add: catalog_examples)
  have e1: "edit_component ''Transistor (NPN) (1)'' (\<lambda>param. []) (\<lambda>param. 150)
       (circuit [place 1 ''Transistor (NPN)'' transistor_params]) = Inl ValueError"
    by (simp add: edit_component_def t circuit_def)
  have e2: "edit_component ''Resistor (1)'' (\<lambda>param. []) (\<lambda>param. 150)
       (circuit [place 1 ''Resistor'' (resistor_params 1000)]) =
     Inr (circuit [place 1 ''Resistor''
                     (form_params (\<lambda>param. []) (\<lambda>param. 150) (resistor_params 1000))])"
    using k by (simp add: edit_component_def r circuit_def place_def)
  have f: "form_params (\<lambda>param. []) (\<lambda>param. 150) (resistor_params 1000) ''resistance'' =
       Some (Num 150)"
    by (simp add: form_params_def resistor_params_def)
  from o e1 e2 f show ?thesis by simp
qed

subsection \<open>C9: clearing keeps the stored analysis\<close>



subsection \<open>C10: the analysis and the connections\<close>

lemma analyze_component_cong:
  assumes "comp_id c = comp_id c'" "comp_type c = comp_type c'" "params c = params c'"
  shows "analyze_component c r = analyze_component c' r"
  unfolding analyze_component_def analyze_branch_def assms ..

lemma analyze_components_cong:
  "map (\<lambda>c. (comp_id c, comp_type c, params c)) cs =
   map (\<lambda>c. (comp_id c, comp_type c, params c)) cs' \<Longrightarrow>
     analyze_components cs r = analyze_components cs' r"
proof (induction cs arbitrary: cs' r)
  case Nil
  then show ?case by simp
next
  case (Cons c cs)
  then obtain c' cs1 where cs': "cs' = c' # cs1" by (cases cs') auto
  with Cons.prems have "analyze_component c r = analyze_component c' r"
    by (intro analyze_component_cong) auto
  moreover have "analyze_components cs r1 = analyze_components cs1 r1" for r1
    using Cons.prems cs' by (intro Cons.IH) auto
  ultimately show ?case by (auto simp: cs' split: sum.splits)
qed

text \<open>
  Claim C10. The result of the analysis is a function of the ids, types and params of
  the components, in their order: two sessions that agree on them have the same result,
  whatever their connections (and positions, stored results and counters). The analysis
  does not read the connections, and ``Analyze Circuit'' leaves them as they were.
\<close>

theorem analysis_ignores_connections:
  "(map (\<lambda>c. (comp_id c, comp_type c, params c)) (circuit_components s1) =
    map (\<lambda>c. (comp_id c, comp_type c, params c)) (circuit_components s2) \<longrightarrow>
      calculate_circuit_parameters s1 = calculate_circuit_parameters s2)
   \<and> calculate_circuit_parameters (s1\<lparr>connections := conns\<rparr>) = calculate_circuit_parameters s1
   \<and> (\<forall>s'. analyze_circuit s1 = Inr s' \<longrightarrow> connections s' = connections s1)"
  by (auto simp: calculate_circuit_parameters_def analyze_circuit_def
        dest: analyze_components_cong [where r = init_results] split: sum.splits if_splits)

text \<open>The same Resistor and Battery, with and without a connection between them.\<close>

theorem analysis_ignores_connections_witness:
  "calculate_circuit_parameters
     ((circuit [place 1 ''Resistor'' (resistor_params 2000),
                place 2 ''Battery'' (battery_params 9 0.1)])
        \<lparr>connections := [\<lparr>from_comp = 1, to_comp = 2\<rparr>]\<rparr>) =
   calculate_circuit_parameters
     (circuit [place 1 ''Resistor'' (resistor_params 2000),
               place 2 ''Battery'' (battery_params 9 0.1)])
   \<and> circuit_components
        ((circuit [place 1 ''Resistor'' (resistor_params 2000),
                   place 2 ''Battery'' (battery_params 9 0.1)])
           \<lparr>connections := [\<lparr>from_comp = 1, to_comp = 2\<rparr>]\<rparr>) =
      circuit_components
        (circuit [place 1 ''Resistor'' (resistor_params 2000),
                  place 2 ''Battery'' (battery_params 9 0.1)])"
proof -
  let ?plain = "circuit [place 1 ''Resistor'' (resistor_params 2000),
                         place 2 ''Battery'' (battery_params 9 0.1)]"
  let ?wired = "?plain\<lparr>connections := [\<lparr>from_comp = 1, to_comp = 2\<rparr>]\<rparr>"
  have same: "circuit_components ?wired = circuit_components ?plain"
    by simp
  then have "map (\<lambda>c. (comp_id c, comp_type c, params c)) (circuit_components ?wired) =
    map (\<lambda>c. (comp_id c, comp_type c, params c)) (circuit_components ?plain)"
    by simp
  with analysis_ignores_connections [of ?wired ?plain] same
  show ?thesis by blast
qed

section \<open>What holds in every session the handlers produce\<close>

lemma same_kind_refl: "same_kind a a"
  by (simp add: same_kind_def split: option.splits pval.splits)

lemma same_kind_form:
  "same_kind (ps k) d \<Longrightarrow> same_kind (form_params text_input number_input ps k) d"
  by (auto simp: same_kind_def form_params_def split: option.splits pval.splits)

lemma invariant_add:
  assumes "invariant s"
  shows "invariant (snd (add_component t px py s))"
proof (cases "COMPONENTS t")
  case None
  with assms show ?thesis
    by (auto simp: invariant_def add_component_def Let_def)
next
  case (Some dflt)
  have new: "conforms \<lparr>comp_id = component_counter s + 1, comp_type = t, pos_x = px,
                       pos_y = py, params = dflt\<rparr>"
    by (simp add: conforms_def Some same_kind_refl)
  have fresh: "component_counter s + 1 \<notin> comp_id ` set (circuit_components s)"
    using assms by (auto simp: invariant_def)
  from assms new fresh show ?thesis
    by (auto simp: invariant_def add_component_ok [OF Some])
qed

lemma invariant_connect:
  "invariant s \<Longrightarrow> connect_components from_label to_label s = Inr (m, s') \<Longrightarrow> invariant s'"
  by (auto simp: invariant_def connect_components_def Let_def split: if_splits sum.splits)

lemma invariant_clear: "invariant (clear s)"
  by (simp add: invariant_def clear_def)

lemma invariant_analyze: "invariant s \<Longrightarrow> analyze_circuit s = Inr s' \<Longrightarrow> invariant s'"
  by (auto simp: invariant_def analyze_circuit_def split: if_splits sum.splits)

lemma set_params_ids: "map comp_id (set_params cid ps cs) = map comp_id cs"
  by (induction cs) auto

lemma set_params_member:
  "c' \<in> set (set_params cid ps cs) \<Longrightarrow>
     c' \<in> set cs \<or> (\<exists>c \<in> set cs. comp_id c = cid \<and> c' = c\<lparr>params := ps\<rparr>)"
  by (induction cs) (auto split: if_splits)

lemma find_is_the_one:
  "find (\<lambda>c. comp_id c = cid) cs = Some c0 \<Longrightarrow> distinct (map comp_id cs) \<Longrightarrow>
     c \<in> set cs \<Longrightarrow> comp_id c = cid \<Longrightarrow> c = c0"
  by (induction cs) (auto split: if_splits)

lemma conforms_form:
  "conforms c \<Longrightarrow> conforms (c\<lparr>params := form_params text_input number_input (params c)\<rparr>)"
  by (auto simp: conforms_def same_kind_form split: option.splits)

lemma invariant_edit:
  assumes inv: "invariant s"
    and ed: "edit_component selected text_input number_input s = Inr s'"
  shows "invariant s'"
proof (cases "s' = s")
  case True
  with inv show ?thesis by simp
next
  case False
  with ed obtain cid c0 where
    f: "find (\<lambda>c. comp_id c = cid) (circuit_components s) = Some c0" and
    s': "s' = s\<lparr>circuit_components :=
                 set_params cid (form_params text_input number_input (params c0))
                   (circuit_components s)\<rparr>"
    by (auto simp: edit_component_def split: if_splits sum.splits option.splits)
  from inv have dist: "distinct (map comp_id (circuit_components s))"
    and old: "\<And>c. c \<in> set (circuit_components s) \<Longrightarrow>
                conforms c \<and> comp_id c \<le> component_counter s"
    and conn: "\<forall>n \<in> set (connections s). from_comp n \<noteq> to_comp n"
    by (simp_all add: invariant_def)
  have "conforms c' \<and> comp_id c' \<le> component_counter s"
    if "c' \<in> set (set_params cid (form_params text_input number_input (params c0))
                    (circuit_components s))" for c'
  proof -
    from set_params_member [OF that]
    consider "c' \<in> set (circuit_components s)"
      | c where "c \<in> set (circuit_components s)" "comp_id c = cid"
          "c' = c\<lparr>params := form_params text_input number_input (params c0)\<rparr>"
      by blast
    then show ?thesis
    proof cases
      case 1
      then show ?thesis by (rule old)
    next
      case 2
      then have "c = c0" using find_is_the_one [OF f dist] by blast
      with 2 have c': "c' = c\<lparr>params := form_params text_input number_input (params c)\<rparr>"
        by simp
      from old [OF 2(1)] have "conforms c" "comp_id c \<le> component_counter s" by simp_all
      then show ?thesis
        unfolding c' using conforms_form [of c] by simp
    qed
  qed
  with dist conn show ?thesis
    by (simp add: invariant_def s' set_params_ids)
qed

lemma reachable_invariant: "reachable s \<Longrightarrow> invariant s"
proof (induction rule: reachable.induct)
  case start
  show ?case by (simp add: invariant_def init_session_def)
next
  case (added s t px py)
  then show ?case by (simp add: invariant_add)
next
  case (connected s from_label to_label m s')
  then show ?case using invariant_connect by blast
next
  case (cleared s)
  show ?case by (rule invariant_clear)
next
  case (analyzed s s')
  then show ?case using invariant_analyze by blast
next
  case (edited s selected text_input number_input s')
  then show ?case using invariant_edit by blast
qed

text \<open>
  The catalog gives a Battery no \<^verbatim>\<open>voltage_rms\<close> and an AC Source no \<^verbatim>\<open>voltage\<close>, and no
  entry of the catalog holds a string under a key that the analysis reads.
\<close>

lemma conforms_source_keys:
  assumes "conforms c"
  shows "(comp_type c = ''Battery'' \<longrightarrow> params c ''voltage_rms'' = None)
       \<and> (comp_type c = ''AC Source'' \<longrightarrow> params c ''voltage'' = None)"
proof (intro conjI impI)
  assume "comp_type c = ''Battery''"
  with assms have "same_kind (params c ''voltage_rms'') (battery_params 9 0.1 ''voltage_rms'')"
    by (simp add: conforms_def catalog_examples)
  then show "params c ''voltage_rms'' = None"
    by (simp add: same_kind_def battery_params_def split: option.splits pval.splits)
next
  assume "comp_type c = ''AC Source''"
  with assms have "same_kind (params c ''voltage'') (ac_source_params 120 ''voltage'')"
    by (simp add: conforms_def catalog_examples)
  then show "params c ''voltage'' = None"
    by (simp add: same_kind_def ac_source_params_def split: option.splits pval.splits)
qed

lemma catalog_numeric:
  "COMPONENTS t = Some dflt \<Longrightarrow> k \<in> set analysis_keys \<Longrightarrow> dflt k \<noteq> Some (Str w)"
  by (auto simp: COMPONENTS_def analysis_keys_def split: if_splits)

lemma conforms_numeric:
  assumes "conforms c"
  shows "numeric_params c"
proof -
  from assms obtain dflt where d: "COMPONENTS (comp_type c) = Some dflt"
    and k: "\<And>k. same_kind (params c k) (dflt k)"
    by (auto simp: conforms_def split: option.splits)
  have "case params c k of Some (Str _) \<Rightarrow> False | _ \<Rightarrow> True" if "k \<in> set analysis_keys" for k
    using k [of k] catalog_numeric [OF d that]
    by (auto simp: same_kind_def split: option.splits pval.splits)
  then show ?thesis
    by (simp add: numeric_params_def list_all_iff)
qed

lemma reachable_hypotheses:
  assumes "reachable s"
  shows "\<forall>n \<in> set (connections s). from_comp n \<noteq> to_comp n"
    and "\<forall>c \<in> set (circuit_components s).
           (comp_type c = ''Battery'' \<longrightarrow> params c ''voltage_rms'' = None)
         \<and> (comp_type c = ''AC Source'' \<longrightarrow> params c ''voltage'' = None)"
    and "\<forall>c \<in> set (circuit_components s). numeric_params c"
    and "distinct (map comp_id (circuit_components s))"
  using reachable_invariant [OF assms] conforms_source_keys conforms_numeric
  by (auto simp: invariant_def)

text \<open>
  In such a session the label of every component reads back as its id, except the label
  of a Transistor (NPN), on which the reading raises.
\<close>

lemma reachable_labels:
  assumes "reachable s" and "c \<in> set (circuit_components s)"
  shows "parse_id (option_label c) =
           (if comp_type c = ''Transistor (NPN)'' then Inl ValueError else Inr (comp_id c))"
proof -
  from reachable_invariant [OF assms(1)] assms(2) have "conforms c"
    by (simp add: invariant_def)
  then obtain dflt where "COMPONENTS (comp_type c) = Some dflt"
    by (auto simp: conforms_def split: option.splits)
  then show ?thesis
    using catalog_no_parenthesis parse_id_option_label parse_id_transistor_label by auto
qed

end
